theory Spec2Isabelle
  imports Complex_Main "HOL-Library.AList"
begin

section \<open>Python values and library operations used by \<^verbatim>\<open>pymatgen/io/lobster.py\<close>\<close>

text \<open>
  The two readers of \<^verbatim>\<open>lobster.py\<close>, \<^verbatim>\<open>Cohpcar\<close> and \<^verbatim>\<open>Icohplist\<close>, are
  embedded as functions from the text of the file to either the Python exception
  that the constructor raises or the attributes of the constructed object.

  Text is a list of characters; the model is for ASCII text. The source raises only
  built-in exceptions: \<^verbatim>\<open>IndexError\<close> (a subscript out of range) and
  \<^verbatim>\<open>ValueError\<close> (\<^verbatim>\<open>int\<close>, \<^verbatim>\<open>float\<close> or numpy refusing a text or a shape).
\<close>

datatype py_error = IndexError | ValueError

datatype spin = Up | Down

type_synonym 'a result = "py_error + 'a"

definition andthen :: "'a result \<Rightarrow> ('a \<Rightarrow> 'b result) \<Rightarrow> 'b result" where
  "andthen m f = (case m of Inl e \<Rightarrow> Inl e | Inr x \<Rightarrow> f x)"

definition raises :: "'a result \<Rightarrow> bool" where
  "raises m = (case m of Inl e \<Rightarrow> True | Inr x \<Rightarrow> False)"

subsection \<open>Subscripts and slices\<close>

text \<open>\<^verbatim>\<open>xs[i]\<close>: a negative subscript counts from the end; out of range raises.\<close>

definition py_getitem :: "'a list \<Rightarrow> int \<Rightarrow> 'a result" where
  "py_getitem xs i =
     (let n = int (length xs) in
      if 0 \<le> i \<and> i < n then Inr (xs ! nat i)
      else if - n \<le> i \<and> i < 0 then Inr (xs ! nat (n + i))
      else Inl IndexError)"

text \<open>A slice bound is clamped to the list, a negative one counting from the end.\<close>

definition slice_bound :: "nat \<Rightarrow> int \<Rightarrow> nat" where
  "slice_bound n i = (if i < 0 then nat (max 0 (int n + i)) else min n (nat i))"

text \<open>\<^verbatim>\<open>xs[i:]\<close> and \<^verbatim>\<open>xs[i:j]\<close>; a slice never raises.\<close>

definition py_slice_from :: "'a list \<Rightarrow> int \<Rightarrow> 'a list" where
  "py_slice_from xs i = drop (slice_bound (length xs) i) xs"

definition py_slice :: "'a list \<Rightarrow> int \<Rightarrow> int \<Rightarrow> 'a list" where
  "py_slice xs i j =
     (let lo = slice_bound (length xs) i; hi = slice_bound (length xs) j
      in take (hi - lo) (drop lo xs))"

subsection \<open>Strings\<close>

text \<open>\<^verbatim>\<open>s.split(sep)\<close> for a separator of one character: the pieces between the
  separators, empty ones kept, so the result is never empty.\<close>

fun split_acc :: "char \<Rightarrow> string \<Rightarrow> string \<Rightarrow> string list" where
  "split_acc sep cur [] = [cur]"
| "split_acc sep cur (c # cs) =
     (if c = sep then cur # split_acc sep [] cs else split_acc sep (cur @ [c]) cs)"

definition py_split :: "char \<Rightarrow> string \<Rightarrow> string list" where
  "py_split sep s = split_acc sep [] s"

text \<open>The ASCII characters that \<^verbatim>\<open>str.isspace\<close> accepts: tab, line feed, vertical tab,
  form feed, carriage return, the four separators 28 to 31 and the space.\<close>

definition is_space :: "char \<Rightarrow> bool" where
  "is_space c = (of_char c \<in> {9::nat, 10, 11, 12, 13, 28, 29, 30, 31, 32})"

text \<open>\<^verbatim>\<open>s.split()\<close>: the maximal runs of characters that are not white space.\<close>

fun words_acc :: "string \<Rightarrow> string \<Rightarrow> string list" where
  "words_acc cur [] = (if cur = [] then [] else [cur])"
| "words_acc cur (c # cs) =
     (if is_space c then (if cur = [] then words_acc [] cs else cur # words_acc [] cs)
      else words_acc (cur @ [c]) cs)"

definition py_split_ws :: "string \<Rightarrow> string list" where
  "py_split_ws s = words_acc [] s"

text \<open>\<^verbatim>\<open>s.replace("->", ":")\<close>: every occurrence, left to right, without overlap.\<close>

fun replace_arrow :: "string \<Rightarrow> string" where
  "replace_arrow (a # b # cs) =
     (if a = CHR ''-'' \<and> b = CHR ''>'' then CHR '':'' # replace_arrow cs
      else a # replace_arrow (b # cs))"
| "replace_arrow cs = cs"

text \<open>\<^verbatim>\<open>p in s\<close> for strings: \<^verbatim>\<open>p\<close> occurs in \<^verbatim>\<open>s\<close> as a substring.\<close>

fun starts_with :: "string \<Rightarrow> string \<Rightarrow> bool" where
  "starts_with s [] = True"
| "starts_with [] (p # ps) = False"
| "starts_with (c # cs) (p # ps) = (c = p \<and> starts_with cs ps)"

fun py_in :: "string \<Rightarrow> string \<Rightarrow> bool" where
  "py_in p [] = (p = [])"
| "py_in p (c # cs) = (starts_with (c # cs) p \<or> py_in p cs)"

definition is_digit :: "char \<Rightarrow> bool" where
  "is_digit c = (48 \<le> (of_char c :: nat) \<and> (of_char c :: nat) \<le> 57)"

text \<open>\<^verbatim>\<open>re.split(pattern, s)\<close> for a pattern \<^verbatim>\<open>C+\<close> over a character class
  (\<^verbatim>\<open>\D+\<close>, \<^verbatim>\<open>\d+\<close>): the pieces between the maximal runs of the class. The flag
  says that the previous character belonged to a run.\<close>

fun re_split_acc :: "(char \<Rightarrow> bool) \<Rightarrow> bool \<Rightarrow> string \<Rightarrow> string \<Rightarrow> string list" where
  "re_split_acc cls inrun cur [] = [cur]"
| "re_split_acc cls inrun cur (c # cs) =
     (if cls c then (if inrun then re_split_acc cls True cur cs
                     else cur # re_split_acc cls True [] cs)
      else re_split_acc cls False (cur @ [c]) cs)"

definition re_split :: "(char \<Rightarrow> bool) \<Rightarrow> string \<Rightarrow> string list" where
  "re_split cls s = re_split_acc cls False [] s"

subsection \<open>Integers\<close>

definition digit_val :: "char \<Rightarrow> nat" where
  "digit_val c = of_char c - 48"

text \<open>The digits of an integer literal: decimal digits, where single underscores may
  stand between two digits (Python 3.6 and later).\<close>

fun digits_ok :: "string \<Rightarrow> bool" where
  "digits_ok [] = False"
| "digits_ok [c] = is_digit c"
| "digits_ok (c # d # cs) =
     (is_digit c \<and> (if d = CHR ''_'' then digits_ok cs else digits_ok (d # cs)))"

definition digits_val :: "string \<Rightarrow> nat" where
  "digits_val s = foldl (\<lambda>a c. 10 * a + digit_val c) 0 (filter is_digit s)"

text \<open>The white space that \<^verbatim>\<open>int\<close> and \<^verbatim>\<open>float\<close> skip around a literal: tab, line feed,
  vertical tab, form feed, carriage return and the space (not the separators 28 to 31).\<close>

definition is_blank :: "char \<Rightarrow> bool" where
  "is_blank c = (of_char c \<in> {9::nat, 10, 11, 12, 13, 32})"

definition py_strip :: "string \<Rightarrow> string" where
  "py_strip s = rev (dropWhile is_blank (rev (dropWhile is_blank s)))"

text \<open>The limit of CPython 3.11 and later on the decimal digits that \<^verbatim>\<open>int\<close> converts
  (\<^verbatim>\<open>sys.get_int_max_str_digits()\<close>, 4300 unless the interpreter is configured
  otherwise): a literal with more digit characters raises \<^verbatim>\<open>ValueError\<close>. Leading zeros
  count; the sign, the underscores and the white space around do not.\<close>

definition max_str_digits :: nat where
  "max_str_digits = 4300"

definition literal_ok :: "string \<Rightarrow> bool" where
  "literal_ok s = (digits_ok s \<and> length (filter is_digit s) \<le> max_str_digits)"

text \<open>\<^verbatim>\<open>int(s)\<close> on a string: white space around the literal is dropped, one sign is
  allowed; anything else raises \<^verbatim>\<open>ValueError\<close> (here \<open>None\<close>).\<close>

definition py_int :: "string \<Rightarrow> int option" where
  "py_int s =
     (case py_strip s of
        [] \<Rightarrow> None
      | c # cs \<Rightarrow>
          if c = CHR ''-'' then (if literal_ok cs then Some (- int (digits_val cs)) else None)
          else if c = CHR ''+'' then (if literal_ok cs then Some (int (digits_val cs)) else None)
          else if literal_ok (c # cs) then Some (int (digits_val (c # cs))) else None)"

definition to_int :: "string \<Rightarrow> int result" where
  "to_int s = (case py_int s of None \<Rightarrow> Inl ValueError | Some n \<Rightarrow> Inr n)"

text \<open>\<^verbatim>\<open>"%d" % n\<close>: the decimal digits of \<^verbatim>\<open>n\<close>, after a minus sign when it is negative.\<close>

fun nat_digits :: "nat \<Rightarrow> string" where
  "nat_digits n =
     (if n < 10 then [''0123456789'' ! n]
      else nat_digits (n div 10) @ [''0123456789'' ! (n mod 10)])"

declare nat_digits.simps [simp del]

definition fmt_d :: "int \<Rightarrow> string" where
  "fmt_d n = (if n < 0 then CHR ''-'' # nat_digits (nat (- n)) else nat_digits (nat n))"

subsection \<open>Floating-point numbers\<close>

text \<open>
  \<^verbatim>\<open>float(s)\<close> is a parameter \<open>flt\<close> of the readers, and numpy's conversion of a
  string to \<^verbatim>\<open>dtype=float\<close> is a parameter \<open>npf\<close>: functions from the text to the
  number it denotes, \<open>None\<close> where the conversion raises \<^verbatim>\<open>ValueError\<close>. Nothing is
  assumed about them, so every result below holds for the conversions of the Python and
  the numpy at hand, whatever they accept and however they round.
\<close>

definition to_float :: "(string \<Rightarrow> 'f option) \<Rightarrow> string \<Rightarrow> 'f result" where
  "to_float flt s = (case flt s of None \<Rightarrow> Inl ValueError | Some x \<Rightarrow> Inr x)"

text \<open>
  One such conversion, for running the readers on a concrete file: plain decimal
  literals (white space around, one sign, digits with at most one point and at least
  one digit), with their exact value. Python accepts these and rounds the value to the
  nearest double; it accepts exponents and the names of infinity and not-a-number as
  well, which no file below uses.
\<close>

definition dec_float :: "string \<Rightarrow> rat option" where
  "dec_float s =
     (let t = py_strip s;
          neg = (t \<noteq> [] \<and> hd t = CHR ''-'');
          u = (if t \<noteq> [] \<and> (hd t = CHR ''-'' \<or> hd t = CHR ''+'') then tl t else t);
          ip = takeWhile is_digit u;
          r = dropWhile is_digit u;
          pt = (r \<noteq> [] \<and> hd r = CHR ''.'');
          fp = (if pt then takeWhile is_digit (tl r) else []);
          rest = (if pt then dropWhile is_digit (tl r) else r)
      in if (ip = [] \<and> fp = []) \<or> rest \<noteq> [] then None
         else Some ((if neg then - 1 else 1) * of_nat (digits_val (ip @ fp)) / 10 ^ length fp))"

subsection \<open>Sequencing\<close>

text \<open>A comprehension or a generator whose body may raise: the results in order, or
  the first exception.\<close>

fun collect :: "('a \<Rightarrow> 'b result) \<Rightarrow> 'a list \<Rightarrow> 'b list result" where
  "collect f [] = Inr []"
| "collect f (x # xs) = andthen (f x) (\<lambda>y. andthen (collect f xs) (\<lambda>ys. Inr (y # ys)))"

text \<open>A dictionary is an association list in insertion order; \<^verbatim>\<open>d[k] = v\<close> is
  \<^const>\<open>AList.update\<close>, which replaces the value of a key already there and appends a
  new key.

  \<^verbatim>\<open>{spin: f(s) for s, spin in enumerate(spins)}\<close>, counting from \<open>s\<close>:\<close>

fun spin_dict :: "(int \<Rightarrow> 'a result) \<Rightarrow> int \<Rightarrow> spin list \<Rightarrow> (spin \<times> 'a) list
    \<Rightarrow> (spin \<times> 'a) list result" where
  "spin_dict f s [] acc = Inr acc"
| "spin_dict f s (sp # sps) acc =
     andthen (f s) (\<lambda>v. spin_dict f (s + 1) sps (AList.update sp v acc))"

text \<open>\<^verbatim>\<open>for bond in bonds: k, v = body(bond); d[k] = v\<close>, stopped by the first
  exception of the body.\<close>

fun dict_loop :: "(nat \<Rightarrow> (string \<times> 'v) result) \<Rightarrow> nat list \<Rightarrow> (string \<times> 'v) list
    \<Rightarrow> (string \<times> 'v) list result" where
  "dict_loop body [] d = Inr d"
| "dict_loop body (b # bs) d =
     andthen (body b) (\<lambda>kv. dict_loop body bs (AList.update (fst kv) (snd kv) d))"

subsection \<open>numpy arrays\<close>

text \<open>\<^verbatim>\<open>np.array(row.split(), dtype=float)\<close>: every token converted, \<^verbatim>\<open>ValueError\<close> at
  the first that is not a number.\<close>

definition np_row :: "(string \<Rightarrow> 'f option) \<Rightarrow> string \<Rightarrow> 'f list result" where
  "np_row npf row = collect (to_float npf) (py_split_ws row)"

text \<open>\<^verbatim>\<open>np.array(rows)\<close> of a list of one-dimensional arrays is the matrix of these rows
  when they have one length. Rows of different lengths raise \<^verbatim>\<open>ValueError\<close>
  (numpy 1.24 and later; earlier versions built an array of objects instead).\<close>

definition np_array :: "'f list list \<Rightarrow> 'f list list result" where
  "np_array rows =
     (if list_all (\<lambda>r. length r = length (hd rows)) rows then Inr rows else Inl ValueError)"

text \<open>\<^verbatim>\<open>a.transpose()\<close>: the list of the columns. Without rows, or with empty rows,
  there is no column, and the first subscript of the result raises.\<close>

definition np_transpose :: "'f list list \<Rightarrow> 'f list list" where
  "np_transpose rows =
     (if rows = [] then [] else map (\<lambda>j. map (\<lambda>r. r ! j) rows) [0..<length (hd rows)])"

section \<open>The reader of COHPCAR files: class \<^verbatim>\<open>Cohpcar\<close>\<close>

text \<open>An entry of \<^verbatim>\<open>cohp_data\<close>. The entry of the average has no \<^verbatim>\<open>"length"\<close> and no
  \<^verbatim>\<open>"sites"\<close> key.\<close>

record 'f bond_curve =
  COHP :: "(spin \<times> 'f list) list"
  ICOHP :: "(spin \<times> 'f list) list"
  bond_length :: "'f option"
  sites :: "(int \<times> int) option"

record 'f cohpcar =
  are_coops :: bool
  efermi :: 'f
  is_spin_polarized :: bool
  energies :: "'f list"
  cohp_data :: "(string \<times> 'f bond_curve) list"

text \<open>\<^verbatim>\<open>int(re.split("\D+", site)[1]) - 1\<close>\<close>

definition site_index :: "string \<Rightarrow> int result" where
  "site_index site =
     andthen (py_getitem (re_split (\<lambda>c. \<not> is_digit c) site) 1) (\<lambda>p.
     andthen (to_int p) (\<lambda>n. Inr (n - 1)))"

text \<open>\<^verbatim>\<open>re.split("\d+", site)[0]\<close>\<close>

definition site_species :: "string \<Rightarrow> string result" where
  "site_species site = py_getitem (re_split is_digit site) 0"

text \<open>\<^verbatim>\<open>Cohpcar._get_bond_data(line)\<close>: the label, the length and the pair of site
  indices.\<close>

definition get_bond_data :: "(string \<Rightarrow> 'f option) \<Rightarrow> string
    \<Rightarrow> (string \<times> 'f \<times> int \<times> int) result" where
  "get_bond_data flt line0 =
     (let line = py_split (CHR ''('') line0 in
      andthen (py_getitem line (- 1)) (\<lambda>tail.
      andthen (to_float flt (py_slice tail 0 (- 1))) (\<lambda>len.
      andthen (py_getitem line 0) (\<lambda>path.
      let sts = py_slice (py_split (CHR '':'') (replace_arrow path)) 1 3 in
      andthen (collect site_index sts) (\<lambda>site_indices.
      andthen (collect site_species sts) (\<lambda>species.
      andthen (py_getitem species 0) (\<lambda>sp0.
      andthen (py_getitem site_indices 0) (\<lambda>i0.
      andthen (py_getitem species 1) (\<lambda>sp1.
      andthen (py_getitem site_indices 1) (\<lambda>i1.
      Inr (sp0 @ fmt_d (i0 + 1) @ ''-'' @ sp1 @ fmt_d (i1 + 1), len, (i0, i1))))))))))))"

text \<open>Lines 71 to 80: the parameters line. The result is \<^verbatim>\<open>num_bonds\<close>, the Fermi
  energy, \<^verbatim>\<open>spins\<close> and \<^verbatim>\<open>is_spin_polarized\<close>.\<close>

definition read_parameters :: "(string \<Rightarrow> 'f option) \<Rightarrow> string list
    \<Rightarrow> (int \<times> 'f \<times> spin list \<times> bool) result" where
  "read_parameters flt contents =
     andthen (py_getitem contents 1) (\<lambda>l.
     let parameters = py_split_ws l in
     andthen (py_getitem parameters 0) (\<lambda>p0.
     andthen (to_int p0) (\<lambda>n.
     andthen (py_getitem parameters (- 1)) (\<lambda>pl.
     andthen (to_float flt pl) (\<lambda>ef.
     andthen (py_getitem parameters 1) (\<lambda>p1.
     andthen (to_int p1) (\<lambda>sf.
     Inr (n - 1, ef, if sf = 2 then [Up, Down] else [Up], sf = 2))))))))"

text \<open>Lines 83 and 84: the rows from \<^verbatim>\<open>num_bonds + 3\<close> on, as the list of their
  columns.\<close>

definition read_data :: "(string \<Rightarrow> 'f option) \<Rightarrow> string list \<Rightarrow> int \<Rightarrow> 'f list list result" where
  "read_data npf contents num_bonds =
     andthen (collect (np_row npf) (py_slice_from contents (num_bonds + 3))) (\<lambda>rows.
     andthen (np_array rows) (\<lambda>a. Inr (np_transpose a)))"

text \<open>Lines 87 to 90: the entry of the average.\<close>

definition average_record :: "'f list list \<Rightarrow> int \<Rightarrow> spin list \<Rightarrow> 'f bond_curve result" where
  "average_record data num_bonds spins =
     andthen (spin_dict (\<lambda>s. py_getitem data (1 + 2 * s * (num_bonds + 1))) 0 spins []) (\<lambda>cohp.
     andthen (spin_dict (\<lambda>s. py_getitem data (2 + 2 * s * (num_bonds + 1))) 0 spins []) (\<lambda>icohp.
     Inr \<lparr>COHP = cohp, ICOHP = icohp, bond_length = None, sites = None\<rparr>))"

text \<open>Lines 92 to 99: the body of the loop, the key and the entry it assigns.\<close>

definition bond_record :: "(string \<Rightarrow> 'f option) \<Rightarrow> string list \<Rightarrow> 'f list list \<Rightarrow> int
    \<Rightarrow> spin list \<Rightarrow> nat \<Rightarrow> (string \<times> 'f bond_curve) result" where
  "bond_record flt contents data num_bonds spins bond =
     andthen (py_getitem contents (3 + int bond)) (\<lambda>line.
     andthen (get_bond_data flt line) (\<lambda>r.
     andthen (spin_dict (\<lambda>s. py_getitem data (2 * (int bond + s * (num_bonds + 1)) + 3))
                0 spins []) (\<lambda>cohp.
     andthen (spin_dict (\<lambda>s. py_getitem data (2 * (int bond + s * (num_bonds + 1)) + 4))
                0 spins []) (\<lambda>icohp.
     Inr (fst r, \<lparr>COHP = cohp, ICOHP = icohp, bond_length = Some (fst (snd r)),
                  sites = Some (snd (snd r))\<rparr>)))))"

text \<open>\<^verbatim>\<open>Cohpcar.__init__\<close>, from the lines of the file (\<^verbatim>\<open>contents\<close>) on.\<close>

definition Cohpcar_lines :: "bool \<Rightarrow> (string \<Rightarrow> 'f option) \<Rightarrow> (string \<Rightarrow> 'f option)
    \<Rightarrow> string list \<Rightarrow> 'f cohpcar result" where
  "Cohpcar_lines coops flt npf contents =
     andthen (read_parameters flt contents) (\<lambda>(num_bonds, ef, spins, pol).
     andthen (read_data npf contents num_bonds) (\<lambda>data.
     andthen (py_getitem data 0) (\<lambda>en.
     andthen (average_record data num_bonds spins) (\<lambda>avg.
     andthen (dict_loop (bond_record flt contents data num_bonds spins)
                [0..<nat num_bonds] [(''average'', avg)]) (\<lambda>d.
     Inr \<lparr>are_coops = coops, efermi = ef, is_spin_polarized = pol, energies = en,
          cohp_data = d\<rparr>)))))"

text \<open>\<^verbatim>\<open>f.read().split("\n")\<close>, given the text that reading the file returns.\<close>

definition file_lines :: "string \<Rightarrow> string list" where
  "file_lines text = py_split (CHR 0x0A) text"

text \<open>\<^verbatim>\<open>Cohpcar(are_coops, filename)\<close>, given the text of the file.\<close>

definition Cohpcar_init :: "bool \<Rightarrow> (string \<Rightarrow> 'f option) \<Rightarrow> (string \<Rightarrow> 'f option)
    \<Rightarrow> string \<Rightarrow> 'f cohpcar result" where
  "Cohpcar_init coops flt npf text = Cohpcar_lines coops flt npf (file_lines text)"

section \<open>The reader of ICOHPLIST files: class \<^verbatim>\<open>Icohplist\<close>\<close>

record 'f icohp_entry =
  entry_length :: 'f
  number_of_bonds :: int
  icohp :: "(spin \<times> 'f) list"

record 'f icohplist_obj =
  list_are_coops :: bool
  list_is_spin_polarized :: bool
  icohplist :: "(string \<times> 'f icohp_entry) list"

text \<open>Lines 179 to 188: the body of the loop, the key and the entry it leaves under
  that key.\<close>

definition icohp_record :: "(string \<Rightarrow> 'f option) \<Rightarrow> string list \<Rightarrow> nat \<Rightarrow> bool \<Rightarrow> nat
    \<Rightarrow> (string \<times> 'f icohp_entry) result" where
  "icohp_record flt data num_bonds pol bond =
     andthen (py_getitem data (int bond)) (\<lambda>l.
     let line = py_split_ws l in
     andthen (py_getitem line 1) (\<lambda>e1.
     andthen (py_getitem line 2) (\<lambda>e2.
     andthen (py_getitem line 3) (\<lambda>t3.
     andthen (to_float flt t3) (\<lambda>len.
     andthen (py_getitem line 4) (\<lambda>t4.
     andthen (to_float flt t4) (\<lambda>up.
     andthen (py_getitem line 5) (\<lambda>t5.
     andthen (to_int t5) (\<lambda>num.
     if pol then
       andthen (py_getitem data (int bond + int num_bonds + 1)) (\<lambda>l2.
       andthen (py_getitem (py_split_ws l2) 4) (\<lambda>t.
       andthen (to_float flt t) (\<lambda>down.
       Inr (e1 @ ''-'' @ e2,
            \<lparr>entry_length = len, number_of_bonds = num,
             icohp = AList.update Down down [(Up, up)]\<rparr>))))
     else
       Inr (e1 @ ''-'' @ e2,
            \<lparr>entry_length = len, number_of_bonds = num, icohp = [(Up, up)]\<rparr>))))))))))"

text \<open>\<^verbatim>\<open>Icohplist.__init__\<close>, from \<^verbatim>\<open>data\<close> (the lines without the first and the last)
  on.\<close>

definition Icohplist_lines :: "bool \<Rightarrow> (string \<Rightarrow> 'f option) \<Rightarrow> string list
    \<Rightarrow> 'f icohplist_obj result" where
  "Icohplist_lines coops flt data =
     andthen (py_getitem data (int (length data div 2))) (\<lambda>mid.
     let pol = py_in ''distance'' mid;
         num_bonds = (if pol then length data div 2 else length data) in
     andthen (dict_loop (icohp_record flt data num_bonds pol) [0..<num_bonds] []) (\<lambda>d.
     Inr \<lparr>list_are_coops = coops, list_is_spin_polarized = pol, icohplist = d\<rparr>))"

text \<open>\<^verbatim>\<open>f.read().split("\n")[1:-1]\<close>\<close>

definition summary_lines :: "string \<Rightarrow> string list" where
  "summary_lines text = py_slice (file_lines text) 1 (- 1)"

text \<open>\<^verbatim>\<open>Icohplist(are_coops, filename)\<close>, given the text of the file.\<close>

definition Icohplist_init :: "bool \<Rightarrow> (string \<Rightarrow> 'f option) \<Rightarrow> string \<Rightarrow> 'f icohplist_obj result" where
  "Icohplist_init coops flt text = Icohplist_lines coops flt (summary_lines text)"

section \<open>Notions of the specification\<close>

text \<open>The column of the data rows at an offset from the energy column, which is the
  column at offset 0.\<close>

definition column :: "'f list list \<Rightarrow> nat \<Rightarrow> 'f list" where
  "column rows k = map (\<lambda>row. row ! k) rows"

text \<open>The column with a number in the numbering that calls the energy column column 1.\<close>

definition column_no :: "'f list list \<Rightarrow> nat \<Rightarrow> 'f list" where
  "column_no rows k = column rows (k - 1)"

text \<open>The spin channels of a file, in the order of their blocks of columns.\<close>

definition spin_channels :: "bool \<Rightarrow> spin list" where
  "spin_channels pol = (if pol then [Up, Down] else [Up])"

text \<open>The bond count that the parameters line declares: its first token as an
  integer, minus one.\<close>

definition bond_count :: "string \<Rightarrow> int option" where
  "bond_count text =
     (case py_getitem (file_lines text) 1 of
        Inl e \<Rightarrow> None
      | Inr l \<Rightarrow>
          (case py_getitem (py_split_ws l) 0 of
             Inl e \<Rightarrow> None
           | Inr p0 \<Rightarrow> map_option (\<lambda>n. n - 1) (py_int p0)))"

text \<open>The keys of \<^verbatim>\<open>cohp_data\<close> other than the one of the average.\<close>

definition bond_keys :: "'f cohpcar \<Rightarrow> string list" where
  "bond_keys r = filter (\<lambda>k. k \<noteq> ''average'') (map fst (cohp_data r))"

text \<open>Of a bond header line: the text between the last \<^verbatim>\<open>(\<close> and the final
  character, and the tokens that colons delimit after the tag segment, in the text before
  the first \<^verbatim>\<open>(\<close> with every arrow read as a colon.\<close>

definition length_text :: "string \<Rightarrow> string" where
  "length_text line = butlast (last (py_split (CHR ''('') line))"

definition site_tokens :: "string \<Rightarrow> string list" where
  "site_tokens line = tl (py_split (CHR '':'') (replace_arrow (hd (py_split (CHR ''('') line))))"

text \<open>The digits of a site token that are read as its index: those that follow the first
  run of characters that are not digits (digits before that run are skipped). The token
  has an index that \<^verbatim>\<open>int\<close> converts when there is at least one such digit and there are
  no more of them than \<^const>\<open>max_str_digits\<close>.\<close>

definition index_digits :: "string \<Rightarrow> string" where
  "index_digits site =
     takeWhile is_digit (dropWhile (\<lambda>c. \<not> is_digit c) (dropWhile is_digit site))"

definition site_ok :: "string \<Rightarrow> bool" where
  "site_ok site = (index_digits site \<noteq> [] \<and> length (index_digits site) \<le> max_str_digits)"

text \<open>Of the lines of an ICOHPLIST file without the first and the last: the number of
  bonds that the reader takes from the line in the middle, and the key that a data line
  gives (the second and third token, an index 1 and an index 2, joined by a dash).\<close>

definition summary_num_bonds :: "string list \<Rightarrow> nat" where
  "summary_num_bonds data =
     (if py_in ''distance'' (data ! (length data div 2)) then length data div 2
      else length data)"

definition summary_label :: "string \<Rightarrow> string" where
  "summary_label line = py_split_ws line ! 1 @ ''-'' @ py_split_ws line ! 2"

section \<open>Example files\<close>

text \<open>A COHPCAR file that declares two bonds between the same pair of sites, without
  spin polarization, with one data row.\<close>

definition twin_bonds_file :: string where
  "twin_bonds_file =
     ''title'' @ [CHR 0x0A] @
     ''3 1 0.0'' @ [CHR 0x0A] @
     ''comment'' @ [CHR 0x0A] @
     ''No.1:Fe1->Fe2(2.0)'' @ [CHR 0x0A] @
     ''No.2:Fe1->Fe2(3.0)'' @ [CHR 0x0A] @
     ''0.0 1 2 3 4 5 6''"

text \<open>What the reader makes of it: one key for the two bonds, with the entry of the
  second.\<close>

definition twin_bonds_decoded :: "rat cohpcar" where
  "twin_bonds_decoded =
     \<lparr>are_coops = False, efermi = 0, is_spin_polarized = False, energies = [0],
      cohp_data =
        [(''average'',
          \<lparr>COHP = [(Up, [1])], ICOHP = [(Up, [2])], bond_length = None, sites = None\<rparr>),
         (''Fe1-Fe2'',
          \<lparr>COHP = [(Up, [5])], ICOHP = [(Up, [6])], bond_length = Some 3,
           sites = Some (0, 1)\<rparr>)]\<rparr>"

text \<open>A spin-polarized COHPCAR file with one bond and two data rows.\<close>

definition polarized_file :: string where
  "polarized_file =
     ''title'' @ [CHR 0x0A] @
     ''2 2 0.5'' @ [CHR 0x0A] @
     ''comment'' @ [CHR 0x0A] @
     ''No.1:Fe1->Fe9(2.45)'' @ [CHR 0x0A] @
     ''-1.0 1 2 3 4 5 6 7 8'' @ [CHR 0x0A] @
     ''0.0 11 12 13 14 15 16 17 18''"

text \<open>Its data rows.\<close>

definition polarized_rows :: "rat list list" where
  "polarized_rows =
     [[- 1, 1, 2, 3, 4, 5, 6, 7, 8],
      [0, 11, 12, 13, 14, 15, 16, 17, 18]]"

text \<open>The same file with another third line.\<close>

definition polarized_file' :: string where
  "polarized_file' =
     ''title'' @ [CHR 0x0A] @
     ''2 2 0.5'' @ [CHR 0x0A] @
     ''another comment'' @ [CHR 0x0A] @
     ''No.1:Fe1->Fe9(2.45)'' @ [CHR 0x0A] @
     ''-1.0 1 2 3 4 5 6 7 8'' @ [CHR 0x0A] @
     ''0.0 11 12 13 14 15 16 17 18''"

text \<open>Two files whose parameters line declares the count 0, which differ in the third
  line only.\<close>

definition zero_count_file :: string where
  "zero_count_file =
     ''title'' @ [CHR 0x0A] @
     ''0 1 0.0'' @ [CHR 0x0A] @
     ''1.0 2.0 3.0''"

definition zero_count_file' :: string where
  "zero_count_file' =
     ''title'' @ [CHR 0x0A] @
     ''0 1 0.0'' @ [CHR 0x0A] @
     ''5.0 6.0 7.0''"

text \<open>A spin-polarized ICOHPLIST file with one bond, whose line of the second half has
  five columns.\<close>

definition short_minority_file :: string where
  "short_minority_file =
     ''COHP#  atomMU  atomNU  distance  ICOHP  bonds'' @ [CHR 0x0A] @
     ''1 Fe1 Fe2 2.5 -1.0 3'' @ [CHR 0x0A] @
     ''COHP#  atomMU  atomNU  distance  ICOHP  bonds'' @ [CHR 0x0A] @
     ''1 Fe1 Fe2 2.5 -0.9'' @ [CHR 0x0A]"

text \<open>An ICOHPLIST file without spin polarization whose data line has five columns.\<close>

definition short_majority_file :: string where
  "short_majority_file =
     ''COHP#  atomMU  atomNU  distance  ICOHP  bonds'' @ [CHR 0x0A] @
     ''1 Fe1 Fe2 2.5 -1.0'' @ [CHR 0x0A]"

text \<open>An ICOHPLIST file without spin polarization, with two lines for the same pair of
  atoms and one for another.\<close>

definition repeated_pair_file :: string where
  "repeated_pair_file =
     ''COHP#  atomMU  atomNU  distance  ICOHP  bonds'' @ [CHR 0x0A] @
     ''1 Fe1 Fe2 2.5 -1.0 3'' @ [CHR 0x0A] @
     ''2 Fe1 Fe2 3.5 -0.5 6'' @ [CHR 0x0A] @
     ''3 Fe1 Fe3 4.0 -0.25 1'' @ [CHR 0x0A]"

text \<open>A spin-polarized ICOHPLIST file with two bonds.\<close>

definition polarized_list_file :: string where
  "polarized_list_file =
     ''COHP#  atomMU  atomNU  distance  ICOHP  bonds'' @ [CHR 0x0A] @
     ''1 Fe1 Fe2 2.5 -1.0 3'' @ [CHR 0x0A] @
     ''2 Fe1 Fe3 3.5 -0.5 6'' @ [CHR 0x0A] @
     ''COHP#  atomMU  atomNU  distance  ICOHP  bonds'' @ [CHR 0x0A] @
     ''1 Fe1 Fe2 2.5 -0.75 3'' @ [CHR 0x0A] @
     ''2 Fe1 Fe3 3.5 -0.25 6'' @ [CHR 0x0A]"

section \<open>Basic facts about sequencing, subscripts and dictionaries\<close>

lemma andthen_Inr [simp]: "andthen (Inr x) f = f x"
  by (simp add: andthen_def)

lemma andthen_Inl [simp]: "andthen (Inl e) f = Inl e"
  by (simp add: andthen_def)

lemma andthen_eq_Inr: "andthen m f = Inr y \<longleftrightarrow> (\<exists>x. m = Inr x \<and> f x = Inr y)"
  by (cases m) simp_all

lemma raises_simps [simp]: "raises (Inl e)" "\<not> raises (Inr x)"
  by (simp_all add: raises_def)

lemma raises_andthen: "raises (andthen m f) \<longleftrightarrow> raises m \<or> (\<exists>x. m = Inr x \<and> raises (f x))"
  by (cases m) simp_all

lemma not_raises_iff: "\<not> raises m \<longleftrightarrow> (\<exists>x. m = Inr x)"
  by (cases m) simp_all

lemma collect_eq_Inr: "collect f xs = Inr ys \<longleftrightarrow> map f xs = map Inr ys"
proof (induction xs arbitrary: ys)
  case Nil
  show ?case by auto
next
  case (Cons x xs)
  show ?case
  proof (cases ys)
    case Nil
    then show ?thesis by (auto simp: andthen_eq_Inr)
  next
    case (Cons y ys')
    with Cons.IH [of ys'] show ?thesis by (auto simp: andthen_eq_Inr)
  qed
qed

lemma collect_length: "collect f xs = Inr ys \<Longrightarrow> length ys = length xs"
  by (metis collect_eq_Inr length_map)

lemma collect_nth: "collect f xs = Inr ys \<Longrightarrow> i < length xs \<Longrightarrow> f (xs ! i) = Inr (ys ! i)"
  by (metis collect_eq_Inr length_map nth_map)

lemma raises_collect: "raises (collect f xs) \<longleftrightarrow> list_ex (\<lambda>x. raises (f x)) xs"
  by (induction xs) (auto simp: raises_andthen not_raises_iff)

text \<open>The loop makes the assignments of its bodies in order, if none of them raises.\<close>

lemma dict_loop_collect:
  "dict_loop body bs d =
     andthen (collect body bs) (\<lambda>kvs. Inr (fold (\<lambda>kv. AList.update (fst kv) (snd kv)) kvs d))"
proof (induction bs arbitrary: d)
  case Nil
  show ?case by simp
next
  case (Cons b bs)
  show ?case
    by (cases "body b"; cases "collect body bs") (simp_all add: Cons.IH)
qed

lemma py_getitem_mem: "py_getitem xs i = Inr x \<Longrightarrow> x \<in> set xs"
  by (auto simp: py_getitem_def Let_def split: if_splits)

lemma py_getitem_nat [simp]:
  "py_getitem xs (int n) = (if n < length xs then Inr (xs ! n) else Inl IndexError)"
  by (simp add: py_getitem_def Let_def)

section \<open>The bond header parser\<close>

lemma split_acc_nonempty [simp]: "split_acc sep cur s \<noteq> []"
  by (induction s arbitrary: cur) auto

lemma py_split_nonempty [simp]: "py_split sep s \<noteq> []"
  by (simp add: py_split_def)

lemma re_split_acc_nonempty [simp]: "re_split_acc cls b cur s \<noteq> []"
  by (induction s arbitrary: b cur) auto

lemma re_split_nonempty [simp]: "re_split cls s \<noteq> []"
  by (simp add: re_split_def)

lemma py_getitem_last: "xs \<noteq> [] \<Longrightarrow> py_getitem xs (- 1) = Inr (last xs)"
  by (cases xs rule: rev_cases) (auto simp: py_getitem_def Let_def)

lemma py_getitem_0: "py_getitem xs 0 = (if xs = [] then Inl IndexError else Inr (hd xs))"
  by (cases xs) (auto simp: py_getitem_def Let_def)

lemma py_getitem_1: "py_getitem xs 1 = (if length xs < 2 then Inl IndexError else Inr (xs ! 1))"
  by (auto simp: py_getitem_def Let_def)

lemma py_split_last: "py_getitem (py_split c s) (- 1) = Inr (last (py_split c s))"
  by (simp add: py_getitem_last)

lemma py_split_first: "py_getitem (py_split c s) 0 = Inr (hd (py_split c s))"
  by (simp add: py_getitem_0)

lemma py_slice_butlast: "py_slice xs 0 (- 1) = butlast xs"
  by (cases xs) (auto simp: py_slice_def slice_bound_def Let_def butlast_conv_take max_def)

lemma py_slice_1_3: "py_slice xs 1 3 = take 2 (tl xs)"
  by (cases xs) (auto simp: py_slice_def slice_bound_def Let_def min_def drop_Suc)

lemma site_species_eq: "site_species site = Inr (hd (re_split is_digit site))"
  by (simp add: site_species_def py_getitem_0)

lemma collect_total: "collect (\<lambda>x. Inr (g x)) xs = Inr (map g xs)"
  by (induction xs) simp_all

lemma get_bond_data_alt:
  "get_bond_data flt line =
     andthen (to_float flt (length_text line)) (\<lambda>len.
     andthen (collect site_index (take 2 (site_tokens line))) (\<lambda>idx.
       if length idx < 2 then Inl IndexError
       else Inr (hd (re_split is_digit (site_tokens line ! 0)) @ fmt_d (idx ! 0 + 1) @ ''-'' @
                 hd (re_split is_digit (site_tokens line ! 1)) @ fmt_d (idx ! 1 + 1),
                 len, (idx ! 0, idx ! 1))))"
proof -
  define toks where "toks = take 2 (site_tokens line)"
  have sp: "collect site_species toks = Inr (map (\<lambda>s. hd (re_split is_digit s)) toks)"
    using collect_total [of "\<lambda>s. hd (re_split is_digit s)" toks]
    by (simp add: site_species_eq [abs_def])
  have toks_nth: "length idx = length toks \<Longrightarrow> 2 \<le> length idx \<Longrightarrow>
        toks ! 0 = site_tokens line ! 0 \<and> toks ! 1 = site_tokens line ! 1" for idx :: "int list"
    by (simp add: toks_def)
  have body: "andthen (collect site_index toks) (\<lambda>site_indices.
      andthen (collect site_species toks) (\<lambda>species.
      andthen (py_getitem species 0) (\<lambda>sp0.
      andthen (py_getitem site_indices 0) (\<lambda>i0.
      andthen (py_getitem species 1) (\<lambda>sp1.
      andthen (py_getitem site_indices 1) (\<lambda>i1.
      Inr (sp0 @ fmt_d (i0 + 1) @ ''-'' @ sp1 @ fmt_d (i1 + 1), len, (i0, i1))))))))
    = andthen (collect site_index toks) (\<lambda>idx.
       if length idx < 2 then Inl IndexError
       else Inr (hd (re_split is_digit (site_tokens line ! 0)) @ fmt_d (idx ! 0 + 1) @ ''-'' @
                 hd (re_split is_digit (site_tokens line ! 1)) @ fmt_d (idx ! 1 + 1),
                 len, (idx ! 0, idx ! 1)))" for len :: 'a
  proof (cases "collect site_index toks")
    case (Inl e)
    then show ?thesis by simp
  next
    case (Inr idx)
    then have len: "length idx = length toks" by (rule collect_length)
    have "length toks \<le> 2" by (simp add: toks_def)
    then consider "toks = []" | a where "toks = [a]" | a b where "toks = [a, b]"
      by (cases toks; cases "tl toks"; cases "tl (tl toks)") auto
    then show ?thesis
    proof cases
      case 1
      with len Inr show ?thesis by (simp add: py_getitem_0)
    next
      case 2
      with len obtain i where "idx = [i]" by (cases idx) auto
      with 2 Inr show ?thesis by (simp add: site_species_eq py_getitem_0 py_getitem_1)
    next
      case 3
      with len obtain i j where idx: "idx = [i, j]" by (cases idx; cases "tl idx") auto
      from 3 have "site_tokens line ! 0 = a" "site_tokens line ! 1 = b"
        using toks_nth [of idx] idx by simp_all
      with 3 idx Inr show ?thesis by (simp add: site_species_eq py_getitem_0 py_getitem_1)
    qed
  qed
  show ?thesis
    unfolding get_bond_data_def Let_def py_split_last py_split_first andthen_Inr
      py_slice_1_3 py_slice_butlast
    unfolding site_tokens_def [symmetric] length_text_def [symmetric] toks_def [symmetric] body
    by (rule refl)
qed


lemma re_split_acc_word:
  "re_split_acc cls False cur s =
     (if dropWhile (\<lambda>c. \<not> cls c) s = [] then [cur @ s]
      else (cur @ takeWhile (\<lambda>c. \<not> cls c) s)
             # re_split_acc cls True [] (tl (dropWhile (\<lambda>c. \<not> cls c) s)))"
  by (induction s arbitrary: cur) auto

lemma re_split_acc_run:
  "re_split_acc cls True [] s =
     (if dropWhile cls s = [] then [[]] else re_split_acc cls False [] (dropWhile cls s))"
  by (induction s) auto

lemma is_digit_not_space: "is_digit c \<Longrightarrow> \<not> is_blank c"
  by (auto simp: is_digit_def is_blank_def)

lemma is_digit_not_sign: "is_digit c \<Longrightarrow> c \<noteq> CHR ''-'' \<and> c \<noteq> CHR ''+'' \<and> c \<noteq> CHR ''_''"
  by (auto simp: is_digit_def)

lemma digits_ok_all_digits: "ds \<noteq> [] \<Longrightarrow> list_all is_digit ds \<Longrightarrow> digits_ok ds"
proof (induction ds rule: digits_ok.induct)
  case 1
  then show ?case by simp
next
  case (2 c)
  then show ?case by simp
next
  case (3 c d cs)
  from "3.prems" have "is_digit c" "is_digit d" "list_all is_digit (d # cs)" by simp_all
  with "3.IH"(2) is_digit_not_sign [of d] show ?case by simp
qed

lemma py_strip_digits: "ds \<noteq> [] \<Longrightarrow> list_all is_digit ds \<Longrightarrow> py_strip ds = ds"
proof -
  assume ne: "ds \<noteq> []" and all: "list_all is_digit ds"
  then have "\<not> is_blank (hd ds)" "\<not> is_blank (last ds)"
    by (simp_all add: list_all_iff is_digit_not_space)
  with ne have "dropWhile is_blank ds = ds" "dropWhile is_blank (rev ds) = rev ds"
    by (simp_all add: dropWhile_eq_self_iff hd_rev)
  then show ?thesis by (simp add: py_strip_def)
qed

lemma py_int_digits:
  assumes ne: "ds \<noteq> []" and all: "list_all is_digit ds"
  shows "py_int ds = (if length ds \<le> max_str_digits then Some (int (digits_val ds)) else None)"
proof -
  from ne obtain c cs where ds: "ds = c # cs" by (cases ds) auto
  with all have "is_digit c" by simp
  then have "c \<noteq> CHR ''-''" "c \<noteq> CHR ''+''" using is_digit_not_sign by blast+
  moreover have "digits_ok (c # cs)" using digits_ok_all_digits [OF ne all] ds by simp
  moreover have "py_strip ds = c # cs" using py_strip_digits [OF ne all] ds by simp
  moreover have "filter is_digit ds = ds" using all by (simp add: list_all_iff)
  ultimately show ?thesis by (simp add: py_int_def literal_ok_def ds)
qed

lemma py_int_empty [simp]: "py_int [] = None"
  by (simp add: py_int_def py_strip_def)

lemma re_split_nondigit:
  "re_split (\<lambda>c. \<not> is_digit c) site =
     (if dropWhile is_digit site = [] then [site]
      else takeWhile is_digit site #
        (if dropWhile (\<lambda>c. \<not> is_digit c) (dropWhile is_digit site) = [] then [[]]
         else re_split_acc (\<lambda>c. \<not> is_digit c) False []
                (dropWhile (\<lambda>c. \<not> is_digit c) (dropWhile is_digit site))))"
proof (cases "dropWhile is_digit site")
  case Nil
  then show ?thesis
    by (simp add: re_split_def re_split_acc_word [of _ "[]" site] del: dropWhile_eq_Nil_conv)
next
  case (Cons c cs)
  then have "\<not> is_digit c" by (metis hd_dropWhile list.sel(1) list.distinct(1))
  with Cons show ?thesis
    by (simp add: re_split_def re_split_acc_word [of _ "[]" site] re_split_acc_run
        del: dropWhile_eq_Nil_conv)
qed

lemma re_split_acc_hd:
  "hd (re_split_acc cls False cur s) = cur @ takeWhile (\<lambda>c. \<not> cls c) s"
  by (induction s arbitrary: cur) auto

lemma site_index_ok: "raises (site_index site) \<longleftrightarrow> \<not> site_ok site"
proof -
  define r where "r = dropWhile (\<lambda>c. \<not> is_digit c) (dropWhile is_digit site)"
  have ds: "index_digits site = takeWhile is_digit r"
    by (simp add: index_digits_def r_def)
  show ?thesis
  proof (cases "dropWhile is_digit site = []")
    case True
    then have "index_digits site = []" by (simp add: index_digits_def del: dropWhile_eq_Nil_conv)
    with True show ?thesis
      by (simp add: site_index_def site_ok_def py_getitem_1 re_split_nondigit
          del: dropWhile_eq_Nil_conv)
  next
    case False
    show ?thesis
    proof (cases "r = []")
      case True
      then have "index_digits site = []" by (simp add: ds)
      with True False show ?thesis
        by (simp add: site_index_def site_ok_def py_getitem_1 re_split_nondigit to_int_def r_def
            del: dropWhile_eq_Nil_conv)
    next
      case r: False
      then have d: "is_digit (hd r)"
        unfolding r_def by (metis hd_dropWhile)
      from r d have ne: "index_digits site \<noteq> []" by (cases r) (simp_all add: ds)
      moreover have "list_all is_digit (index_digits site)"
        unfolding ds list_all_iff by (meson set_takeWhileD)
      ultimately have int: "py_int (index_digits site)
          = (if length (index_digits site) \<le> max_str_digits
             then Some (int (digits_val (index_digits site))) else None)"
        by (rule py_int_digits)
      have "hd (re_split_acc (\<lambda>c. \<not> is_digit c) False [] r) = index_digits site"
        by (simp add: re_split_acc_hd ds)
      then have "re_split_acc (\<lambda>c. \<not> is_digit c) False [] r ! 0 = index_digits site"
        by (simp add: hd_conv_nth)
      with False r int ne show ?thesis
        by (simp add: site_index_def site_ok_def py_getitem_1 re_split_nondigit to_int_def
            flip: r_def del: dropWhile_eq_Nil_conv)
    qed
  qed
qed

text \<open>A site index with more digits than \<^verbatim>\<open>int\<close> converts makes the parser raise.\<close>

lemma site_index_too_long:
  "raises (site_index (''Fe'' @ replicate (Suc max_str_digits) (CHR ''7'')))"
proof -
  have "index_digits (''Fe'' @ replicate (Suc max_str_digits) (CHR ''7''))
        = replicate (Suc max_str_digits) (CHR ''7'')"
    by (simp add: index_digits_def is_digit_def takeWhile_replicate)
  then show ?thesis by (simp add: site_index_ok site_ok_def)
qed

lemma raises_to_float: "raises (to_float flt s) \<longleftrightarrow> flt s = None"
  by (simp add: to_float_def split: option.splits)

text \<open>Evaluation of the library operations on a concrete text.\<close>

lemmas py_eval =
  py_split_def py_split_ws_def py_slice_def py_slice_from_def slice_bound_def py_getitem_def
  to_float_def to_int_def py_int_def literal_ok_def max_str_digits_def py_strip_def is_space_def
  is_blank_def is_digit_def digits_val_def digit_val_def fmt_d_def nat_digits.simps re_split_def
  file_lines_def Let_def

lemmas bond_eval = get_bond_data_def site_index_def site_species_def

text \<open>
  Claim C3. Decoding the header line \<^verbatim>\<open>No.4:Fe1->Fe9(2.4524893531900283)\<close> yields the
  label \<^verbatim>\<open>Fe1-Fe9\<close>, the zero-based site indices 0 and 8, and as length the number
  that the conversion to float gives for the text \<^verbatim>\<open>2.4524893531900283\<close>.
\<close>

theorem C3_bond_header_round_trip:
  "flt ''2.4524893531900283'' = Some x \<Longrightarrow>
   get_bond_data flt ''No.4:Fe1->Fe9(2.4524893531900283)'' = Inr (''Fe1-Fe9'', x, (0, 8))"
  by (simp add: bond_eval py_eval)

theorem C3_bond_header_round_trip_witness:
  "dec_float ''2.4524893531900283'' = Some (24524893531900283 / 10000000000000000) \<and>
   get_bond_data dec_float ''No.4:Fe1->Fe9(2.4524893531900283)''
     = Inr (''Fe1-Fe9'', 24524893531900283 / 10000000000000000, (0, 8))"
proof -
  have h: "dec_float ''2.4524893531900283'' = Some (24524893531900283 / 10000000000000000)"
    by (simp add: dec_float_def py_eval)
  show ?thesis
    using h C3_bond_header_round_trip [of dec_float "24524893531900283 / 10000000000000000"]
    by simp
qed

text \<open>
  Claim C7, as stated, fails: a header line with three site tokens after the tag is
  accepted, its third token ignored. Moreover the final character is dropped unread, so a
  line without the closing parenthesis is accepted, and a line with both parentheses and
  exactly two site tokens fails when a token has no digits.
\<close>

theorem C7_extra_site_token_accepted:
  "get_bond_data dec_float ''No.4:Fe1->Fe9->Fe3(2.45)'' = Inr (''Fe1-Fe9'', 245 / 100, (0, 8)) \<and>
   site_tokens ''No.4:Fe1->Fe9->Fe3(2.45)'' = [''Fe1'', ''Fe9'', ''Fe3''] \<and>
   get_bond_data dec_float ''No.4:Fe1->Fe9(2.45'' = Inr (''Fe1-Fe9'', 24 / 10, (0, 8)) \<and>
   get_bond_data dec_float ''No.4:Fe->Fe(2.45)'' = Inl ValueError"
  by (simp add: bond_eval site_tokens_def dec_float_def py_eval)

text \<open>
  Claim C7, amended. The parser fails exactly when the text between the last \<^verbatim>\<open>(\<close> and
  the final character of the line is not a number for the conversion to float, or fewer
  than two colon-delimited site tokens follow the tag segment, or one of the first two
  site tokens has no index that \<^verbatim>\<open>int\<close> converts: no digit after its first run of
  characters that are not digits, or more digits there than the limit of \<^verbatim>\<open>int\<close> on
  the digits of a literal (4300). Site tokens after the second are not read.
\<close>

theorem C7_bond_header_failure:
  "raises (get_bond_data flt line) \<longleftrightarrow>
     flt (length_text line) = None \<or> length (site_tokens line) < 2 \<or>
     \<not> site_ok (site_tokens line ! 0) \<or> \<not> site_ok (site_tokens line ! 1)"
proof (cases "flt (length_text line)")
  case None
  then show ?thesis by (simp add: get_bond_data_alt to_float_def)
next
  case (Some len)
  define toks where "toks = take 2 (site_tokens line)"
  have eq: "raises (get_bond_data flt line) \<longleftrightarrow>
        raises (collect site_index toks) \<or> length toks < 2"
  proof (cases "collect site_index toks")
    case (Inl e)
    then show ?thesis by (simp add: get_bond_data_alt to_float_def Some flip: toks_def)
  next
    case (Inr idx)
    then have "length idx = length toks" by (rule collect_length)
    with Inr show ?thesis by (simp add: get_bond_data_alt to_float_def Some flip: toks_def)
  qed
  show ?thesis
  proof (cases "length (site_tokens line) < 2")
    case True
    then show ?thesis by (simp add: eq toks_def)
  next
    case False
    then obtain a b rest where st: "site_tokens line = a # b # rest"
      by (cases "site_tokens line"; cases "tl (site_tokens line)") auto
    then have "toks = [a, b]" by (simp add: toks_def)
    then have "raises (collect site_index toks) \<longleftrightarrow>
        raises (site_index a) \<or> raises (site_index b)"
      unfolding raises_collect by simp
    with \<open>toks = [a, b]\<close> show ?thesis
      by (simp add: eq Some st site_index_ok)
  qed
qed

theorem C7_bond_header_failure_witness:
  "raises (get_bond_data dec_float ''No.4:Fe1(2.45)'') \<and>
   \<not> raises (get_bond_data dec_float ''No.4:Fe1->Fe9->Fe3(2.45)'')"
  using C7_bond_header_failure [of dec_float "''No.4:Fe1(2.45)''"]
    C7_bond_header_failure [of dec_float "''No.4:Fe1->Fe9->Fe3(2.45)''"]
  by (simp add: site_tokens_def length_text_def site_ok_def index_digits_def dec_float_def
      py_eval)

section \<open>Dictionaries built by a loop\<close>

lemma map_of_fold_update:
  "map_of (fold (\<lambda>kv. AList.update (fst kv) (snd kv)) kvs d) = map_of d ++ map_of (rev kvs)"
proof (induction kvs arbitrary: d)
  case Nil
  show ?case by simp
next
  case (Cons kv kvs)
  have "map_of (fold (\<lambda>kv. AList.update (fst kv) (snd kv)) (kv # kvs) d)
        = map_of (AList.update (fst kv) (snd kv) d) ++ map_of (rev kvs)"
    by (simp add: Cons.IH)
  also have "\<dots> = map_of d ++ map_of (rev (kv # kvs))"
    by (cases kv) (simp add: update_conv')
  finally show ?case .
qed

lemma distinct_fold_update:
  "distinct (map fst d) \<Longrightarrow> distinct (map fst (fold (\<lambda>kv. AList.update (fst kv) (snd kv)) kvs d))"
  by (induction kvs arbitrary: d) (simp_all add: distinct_update)

lemma keys_fold_update:
  "fst ` set (fold (\<lambda>kv. AList.update (fst kv) (snd kv)) kvs d) = fst ` set d \<union> fst ` set kvs"
  by (induction kvs arbitrary: d) (auto simp: dom_update)

lemma set_update_subset: "set (AList.update k v al) \<subseteq> insert (k, v) (set al)"
  by (induction al) auto

lemma set_fold_update_subset:
  "set (fold (\<lambda>kv. AList.update (fst kv) (snd kv)) kvs d) \<subseteq> set d \<union> set kvs"
proof (induction kvs arbitrary: d)
  case Nil
  show ?case by simp
next
  case (Cons kv kvs)
  have "set (fold (\<lambda>kv. AList.update (fst kv) (snd kv)) (kv # kvs) d)
        \<subseteq> set (AList.update (fst kv) (snd kv) d) \<union> set kvs"
    using Cons.IH by simp
  also have "\<dots> \<subseteq> insert kv (set d) \<union> set kvs"
    using set_update_subset [of "fst kv" "snd kv" d] by auto
  finally show ?case by auto
qed

text \<open>The last assignment to a key is the one that the dictionary keeps.\<close>

lemma map_of_fold_update_last:
  assumes "i < length kvs"
    and "\<forall>j. i < j \<and> j < length kvs \<longrightarrow> fst (kvs ! j) \<noteq> fst (kvs ! i)"
  shows "map_of (fold (\<lambda>kv. AList.update (fst kv) (snd kv)) kvs d) (fst (kvs ! i))
         = Some (snd (kvs ! i))"
proof -
  define k where "k = fst (kvs ! i)"
  have kvs: "kvs = take i kvs @ kvs ! i # drop (Suc i) kvs"
    using assms(1) by (simp add: id_take_nth_drop)
  have "k \<notin> fst ` set (drop (Suc i) kvs)"
  proof
    assume "k \<in> fst ` set (drop (Suc i) kvs)"
    then obtain j where "j < length (drop (Suc i) kvs)" "fst (drop (Suc i) kvs ! j) = k"
      by (auto simp: in_set_conv_nth)
    then have "Suc i + j < length kvs" "fst (kvs ! (Suc i + j)) = k" by auto
    with assms(2) show False unfolding k_def by (metis less_add_Suc1 add_Suc)
  qed
  then have none: "map_of (rev (drop (Suc i) kvs)) k = None"
    by (simp add: map_of_eq_None_iff)
  have "rev kvs = rev (drop (Suc i) kvs) @ kvs ! i # rev (take i kvs)"
    by (subst kvs) simp
  then have "map_of (rev kvs) k = Some (snd (kvs ! i))"
    using none by (simp add: map_add_def k_def split: option.splits)
  then show ?thesis
    by (simp add: map_of_fold_update map_add_def flip: k_def)
qed

lemma length_fold_update_empty:
  "length (fold (\<lambda>kv. AList.update (fst kv) (snd kv)) kvs []) = card (fst ` set kvs)"
proof -
  let ?d = "fold (\<lambda>kv. AList.update (fst kv) (snd kv)) kvs []"
  have "distinct (map fst ?d)" by (rule distinct_fold_update) simp
  then have "length ?d = card (fst ` set ?d)"
    using distinct_card [of "map fst ?d"] by simp
  then show ?thesis by (simp add: keys_fold_update)
qed

lemma card_keys_le: "card (fst ` set kvs) \<le> length kvs"
  by (metis card_length list.set_map length_map)

lemma card_keys_eq: "card (fst ` set kvs) = length kvs \<longleftrightarrow> distinct (map fst kvs)"
  by (metis card_distinct distinct_card list.set_map length_map)

section \<open>The steps of the reader of COHPCAR files\<close>

lemma to_int_eq_Inr: "to_int s = Inr n \<longleftrightarrow> py_int s = Some n"
  by (simp add: to_int_def split: option.splits)

lemma to_float_eq_Inr: "to_float flt s = Inr x \<longleftrightarrow> flt s = Some x"
  by (simp add: to_float_def split: option.splits)

lemma read_parameters_Inr:
  assumes "read_parameters flt contents = Inr (nb, ef, spins, pol)"
  shows "\<exists>p0 p1 ps n sf.
     1 < length contents \<and> py_split_ws (contents ! 1) = p0 # p1 # ps \<and>
     py_int p0 = Some n \<and> py_int p1 = Some sf \<and> flt (last (p0 # p1 # ps)) = Some ef \<and>
     nb = n - 1 \<and> pol = (sf = 2) \<and> spins = spin_channels pol"
proof -
  let ?toks = "py_split_ws (contents ! 1)"
  from assms have "\<exists>n sf. 1 < length contents \<and> \<not> length ?toks < 2 \<and>
      py_int (hd ?toks) = Some n \<and> flt (last ?toks) = Some ef \<and> py_int (?toks ! 1) = Some sf \<and>
      nb = n - 1 \<and> pol = (sf = 2) \<and> spins = spin_channels pol"
    unfolding read_parameters_def Let_def spin_channels_def
    by (auto simp: andthen_eq_Inr py_getitem_1 py_getitem_0 to_int_eq_Inr to_float_eq_Inr
        py_getitem_last split: if_splits)
  then obtain n sf where
    len: "1 < length contents" and t1: "\<not> length ?toks < 2" and
    n: "py_int (hd ?toks) = Some n" and ef: "flt (last ?toks) = Some ef" and
    sf: "py_int (?toks ! 1) = Some sf" and
    res: "nb = n - 1" "pol = (sf = 2)" "spins = spin_channels pol"
    by blast
  from t1 obtain p0 p1 ps where toks: "?toks = p0 # p1 # ps"
    by (cases ?toks; cases "tl ?toks") auto
  from n sf ef have "py_int p0 = Some n" "py_int p1 = Some sf"
    "flt (last (p0 # p1 # ps)) = Some ef"
    unfolding toks by simp_all
  with len toks res show ?thesis by blast
qed

lemma read_parameters_bond_count:
  "read_parameters flt (file_lines text) = Inr (nb, ef, spins, pol) \<Longrightarrow> bond_count text = Some nb"
  by (drule read_parameters_Inr) (auto simp: bond_count_def py_getitem_1 py_getitem_0)

lemma np_transpose_nth:
  "k < length (np_transpose rows) \<Longrightarrow> np_transpose rows ! k = column rows k"
  by (simp add: np_transpose_def column_def split: if_splits)

lemma np_transpose_lengths:
  "c \<in> set (np_transpose rows) \<Longrightarrow> length c = length rows"
  by (auto simp: np_transpose_def split: if_splits)

lemma read_data_Inr:
  assumes "read_data npf contents nb = Inr data"
  shows "\<exists>rows. collect (np_row npf) (py_slice_from contents (nb + 3)) = Inr rows \<and>
           data = np_transpose rows \<and> list_all (\<lambda>r. length r = length data) rows"
proof -
  from assms obtain rows where
    rows: "collect (np_row npf) (py_slice_from contents (nb + 3)) = Inr rows" and
    reg: "list_all (\<lambda>r. length r = length (hd rows)) rows" and
    data: "data = np_transpose rows"
    by (auto simp: read_data_def andthen_eq_Inr np_array_def split: if_splits)
  have "list_all (\<lambda>r. length r = length data) rows"
  proof (cases rows)
    case Nil
    then show ?thesis by simp
  next
    case (Cons a list)
    with reg data show ?thesis by (simp add: np_transpose_def)
  qed
  with rows data show ?thesis by blast
qed

lemma spin_dict_channels:
  assumes "spin_dict f 0 (spin_channels pol) [] = Inr d"
  shows "map fst d = spin_channels pol \<and>
         (\<forall>s<length (spin_channels pol).
            \<exists>v. f (int s) = Inr v \<and> map_of d (spin_channels pol ! s) = Some v \<and>
                (spin_channels pol ! s, v) \<in> set d) \<and>
         (\<forall>kv\<in>set d. \<exists>s<length (spin_channels pol). f (int s) = Inr (snd kv))"
proof (cases pol)
  case True
  with assms obtain v w where "f 0 = Inr v" "f 1 = Inr w" "d = [(Up, v), (Down, w)]"
    by (auto simp: spin_channels_def andthen_eq_Inr)
  with True show ?thesis
    by (auto simp: spin_channels_def less_Suc_eq numeral_2_eq_2 intro: exI [of _ "Suc 0"])
next
  case False
  with assms obtain v where "f 0 = Inr v" "d = [(Up, v)]"
    by (auto simp: spin_channels_def andthen_eq_Inr)
  with False show ?thesis
    by (auto simp: spin_channels_def)
qed

lemma average_record_Inr:
  assumes "average_record data nb (spin_channels pol) = Inr avg"
  shows "bond_length avg = None \<and> sites avg = None \<and>
         map fst (COHP avg) = spin_channels pol \<and> map fst (ICOHP avg) = spin_channels pol \<and>
         (\<forall>s<length (spin_channels pol). \<exists>c ic.
            py_getitem data (1 + 2 * int s * (nb + 1)) = Inr c \<and>
            py_getitem data (2 + 2 * int s * (nb + 1)) = Inr ic \<and>
            map_of (COHP avg) (spin_channels pol ! s) = Some c \<and>
            map_of (ICOHP avg) (spin_channels pol ! s) = Some ic) \<and>
         snd ` set (COHP avg) \<subseteq> set data \<and> snd ` set (ICOHP avg) \<subseteq> set data"
proof -
  from assms obtain cohp icohp where
    c: "spin_dict (\<lambda>s. py_getitem data (1 + 2 * s * (nb + 1))) 0 (spin_channels pol) [] = Inr cohp" and
    i: "spin_dict (\<lambda>s. py_getitem data (2 + 2 * s * (nb + 1))) 0 (spin_channels pol) [] = Inr icohp" and
    avg: "avg = \<lparr>COHP = cohp, ICOHP = icohp, bond_length = None, sites = None\<rparr>"
    by (auto simp: average_record_def andthen_eq_Inr)
  note C = spin_dict_channels [OF c] and I = spin_dict_channels [OF i]
  have "snd ` set cohp \<subseteq> set data" "snd ` set icohp \<subseteq> set data"
    using C I by (auto dest!: bspec dest: py_getitem_mem)
  moreover have "\<forall>s<length (spin_channels pol). \<exists>c ic.
            py_getitem data (1 + 2 * int s * (nb + 1)) = Inr c \<and>
            py_getitem data (2 + 2 * int s * (nb + 1)) = Inr ic \<and>
            map_of cohp (spin_channels pol ! s) = Some c \<and>
            map_of icohp (spin_channels pol ! s) = Some ic"
    using C I by metis
  ultimately show ?thesis using C I by (simp add: avg)
qed

lemma bond_record_Inr:
  assumes "bond_record flt contents data nb (spin_channels pol) i = Inr kv"
  shows "3 + i < length contents \<and>
         (\<exists>len st. get_bond_data flt (contents ! (3 + i)) = Inr (fst kv, len, st) \<and>
            bond_length (snd kv) = Some len \<and> sites (snd kv) = Some st) \<and>
         map fst (COHP (snd kv)) = spin_channels pol \<and>
         map fst (ICOHP (snd kv)) = spin_channels pol \<and>
         (\<forall>s<length (spin_channels pol). \<exists>c ic.
            py_getitem data (2 * (int i + int s * (nb + 1)) + 3) = Inr c \<and>
            py_getitem data (2 * (int i + int s * (nb + 1)) + 4) = Inr ic \<and>
            map_of (COHP (snd kv)) (spin_channels pol ! s) = Some c \<and>
            map_of (ICOHP (snd kv)) (spin_channels pol ! s) = Some ic) \<and>
         snd ` set (COHP (snd kv)) \<subseteq> set data \<and> snd ` set (ICOHP (snd kv)) \<subseteq> set data"
proof -
  have idx: "3 + int i = int (3 + i)" by simp
  from assms obtain r cohp icohp where
    len: "3 + i < length contents" and
    r: "get_bond_data flt (contents ! (3 + i)) = Inr r" and
    c: "spin_dict (\<lambda>s. py_getitem data (2 * (int i + s * (nb + 1)) + 3)) 0 (spin_channels pol) []
          = Inr cohp" and
    ic: "spin_dict (\<lambda>s. py_getitem data (2 * (int i + s * (nb + 1)) + 4)) 0 (spin_channels pol) []
          = Inr icohp" and
    kv: "kv = (fst r, \<lparr>COHP = cohp, ICOHP = icohp, bond_length = Some (fst (snd r)),
                       sites = Some (snd (snd r))\<rparr>)"
    unfolding bond_record_def idx py_getitem_nat
    by (auto simp: andthen_eq_Inr split: if_splits)
  note C = spin_dict_channels [OF c] and I = spin_dict_channels [OF ic]
  have "snd ` set cohp \<subseteq> set data" "snd ` set icohp \<subseteq> set data"
    using C I by (auto dest!: bspec dest: py_getitem_mem)
  moreover have "\<forall>s<length (spin_channels pol). \<exists>c ic.
            py_getitem data (2 * (int i + int s * (nb + 1)) + 3) = Inr c \<and>
            py_getitem data (2 * (int i + int s * (nb + 1)) + 4) = Inr ic \<and>
            map_of cohp (spin_channels pol ! s) = Some c \<and>
            map_of icohp (spin_channels pol ! s) = Some ic"
    using C I by metis
  moreover have "\<exists>len st. get_bond_data flt (contents ! (3 + i)) = Inr (fst kv, len, st) \<and>
            bond_length (snd kv) = Some len \<and> sites (snd kv) = Some st"
    using r by (intro exI [of _ "fst (snd r)"] exI [of _ "snd (snd r)"]) (simp add: kv)
  moreover have "COHP (snd kv) = cohp" "ICOHP (snd kv) = icohp" by (simp_all add: kv)
  ultimately show ?thesis using C I len by simp
qed

lemma Cohpcar_init_Inr:
  assumes "Cohpcar_init coops flt npf text = Inr r"
  obtains nb ef data avg kvs where
    "read_parameters flt (file_lines text)
       = Inr (nb, ef, spin_channels (is_spin_polarized r), is_spin_polarized r)"
    "read_data npf (file_lines text) nb = Inr data"
    "py_getitem data 0 = Inr (energies r)"
    "average_record data nb (spin_channels (is_spin_polarized r)) = Inr avg"
    "collect (bond_record flt (file_lines text) data nb (spin_channels (is_spin_polarized r)))
       [0..<nat nb] = Inr kvs"
    "cohp_data r = fold (\<lambda>kv. AList.update (fst kv) (snd kv)) kvs [(''average'', avg)]"
    "efermi r = ef" "are_coops r = coops"
proof -
  from assms obtain nb ef spins pol data en avg kvs where
    p: "read_parameters flt (file_lines text) = Inr (nb, ef, spins, pol)" and
    rest: "read_data npf (file_lines text) nb = Inr data"
    "py_getitem data 0 = Inr en"
    "average_record data nb spins = Inr avg"
    "collect (bond_record flt (file_lines text) data nb spins) [0..<nat nb] = Inr kvs"
    "r = \<lparr>are_coops = coops, efermi = ef, is_spin_polarized = pol, energies = en,
          cohp_data = fold (\<lambda>kv. AList.update (fst kv) (snd kv)) kvs [(''average'', avg)]\<rparr>"
    unfolding Cohpcar_init_def Cohpcar_lines_def dict_loop_collect
    by (auto simp: andthen_eq_Inr)
  from read_parameters_Inr [OF p] have "spins = spin_channels pol" by blast
  with p rest that [of nb ef data avg kvs] show thesis by simp
qed

lemma bond_label_dash:
  "get_bond_data flt line = Inr (label, len, st) \<Longrightarrow> CHR ''-'' \<in> set label"
  by (auto simp: get_bond_data_alt andthen_eq_Inr split: if_splits)

lemma bond_label_not_average:
  "get_bond_data flt line = Inr (label, len, st) \<Longrightarrow> label \<noteq> ''average''"
  by (drule bond_label_dash) auto

lemma collect_upt:
  assumes "collect f [0..<n] = Inr ys"
  shows "length ys = n" and "i < n \<Longrightarrow> f i = Inr (ys ! i)"
proof -
  show "length ys = n" using collect_length [OF assms] by simp
  show "i < n \<Longrightarrow> f i = Inr (ys ! i)" using collect_nth [OF assms, of i] by simp
qed

text \<open>What a successful construction has read: the bond count \<open>nb\<close>, the data rows, and
  the key and entry assigned for each bond.\<close>

lemma Cohpcar_init_facts:
  assumes "Cohpcar_init coops flt npf text = Inr r"
  shows "\<exists>nb rows avg kvs.
    bond_count text = Some nb \<and>
    read_parameters flt (file_lines text)
       = Inr (nb, efermi r, spin_channels (is_spin_polarized r), is_spin_polarized r) \<and>
    collect (np_row npf) (py_slice_from (file_lines text) (nb + 3)) = Inr rows \<and>
    np_transpose rows \<noteq> [] \<and>
    list_all (\<lambda>row. length row = length (np_transpose rows)) rows \<and>
    energies r = column rows 0 \<and>
    average_record (np_transpose rows) nb (spin_channels (is_spin_polarized r)) = Inr avg \<and>
    length kvs = nat nb \<and>
    (\<forall>i<nat nb.
       bond_record flt (file_lines text) (np_transpose rows) nb
         (spin_channels (is_spin_polarized r)) i = Inr (kvs ! i)) \<and>
    cohp_data r = fold (\<lambda>kv. AList.update (fst kv) (snd kv)) kvs [(''average'', avg)]"
proof -
  from assms obtain nb ef data avg kvs where
    p: "read_parameters flt (file_lines text)
       = Inr (nb, ef, spin_channels (is_spin_polarized r), is_spin_polarized r)" and
    d: "read_data npf (file_lines text) nb = Inr data" and
    e: "py_getitem data 0 = Inr (energies r)" and
    a: "average_record data nb (spin_channels (is_spin_polarized r)) = Inr avg" and
    c: "collect (bond_record flt (file_lines text) data nb (spin_channels (is_spin_polarized r)))
       [0..<nat nb] = Inr kvs" and
    cd: "cohp_data r = fold (\<lambda>kv. AList.update (fst kv) (snd kv)) kvs [(''average'', avg)]" and
    ef: "efermi r = ef" and "are_coops r = coops"
    by (rule Cohpcar_init_Inr)
  from read_data_Inr [OF d] obtain rows where
    rows: "collect (np_row npf) (py_slice_from (file_lines text) (nb + 3)) = Inr rows" and
    data: "data = np_transpose rows" and
    reg: "list_all (\<lambda>row. length row = length data) rows"
    by blast
  from e have ne: "data \<noteq> []" and en: "energies r = data ! 0"
    by (auto simp: py_getitem_0 hd_conv_nth split: if_splits)
  then have "energies r = column rows 0"
    using np_transpose_nth [of 0 rows] data by simp
  moreover have "\<forall>i<nat nb.
       bond_record flt (file_lines text) (np_transpose rows) nb
         (spin_channels (is_spin_polarized r)) i = Inr (kvs ! i)"
    using collect_upt(2) [OF c] data by simp
  moreover have "length kvs = nat nb" using collect_upt(1) [OF c] .
  ultimately show ?thesis
    using p a cd ef rows data ne reg read_parameters_bond_count [OF p] by blast
qed

text \<open>Every entry of \<^verbatim>\<open>cohp_data\<close> is the entry of the average or the entry assigned
  for some bond.\<close>

lemma cohp_data_entry_cases:
  assumes "cohp_data r = fold (\<lambda>kv. AList.update (fst kv) (snd kv)) kvs [(''average'', avg)]"
    and "kv \<in> set (cohp_data r)"
  shows "kv = (''average'', avg) \<or> (\<exists>i<length kvs. kv = kvs ! i)"
proof -
  have "kv \<in> set [(''average'', avg)] \<union> set kvs"
    using assms set_fold_update_subset [of kvs "[(''average'', avg)]"] by auto
  then show ?thesis by (auto simp: in_set_conv_nth)
qed

lemma cohp_data_channels:
  assumes "Cohpcar_init coops flt npf text = Inr r" and "kv \<in> set (cohp_data r)"
  shows "map fst (COHP (snd kv)) = spin_channels (is_spin_polarized r) \<and>
         map fst (ICOHP (snd kv)) = spin_channels (is_spin_polarized r) \<and>
         (\<forall>c \<in> snd ` set (COHP (snd kv)) \<union> snd ` set (ICOHP (snd kv)).
            length c = length (energies r))"
proof -
  from Cohpcar_init_facts [OF assms(1)] obtain nb rows avg kvs where
    ne: "np_transpose rows \<noteq> []" and
    en: "energies r = column rows 0" and
    a: "average_record (np_transpose rows) nb (spin_channels (is_spin_polarized r)) = Inr avg" and
    len: "length kvs = nat nb" and
    b: "\<forall>i<nat nb.
       bond_record flt (file_lines text) (np_transpose rows) nb
         (spin_channels (is_spin_polarized r)) i = Inr (kvs ! i)" and
    cd: "cohp_data r = fold (\<lambda>kv. AList.update (fst kv) (snd kv)) kvs [(''average'', avg)]"
    by blast
  have L: "length c = length (energies r)" if "c \<in> set (np_transpose rows)" for c
    using that np_transpose_lengths [of c rows] en by (simp add: column_def)
  from cohp_data_entry_cases [OF cd assms(2)] show ?thesis
  proof
    assume "kv = (''average'', avg)"
    with average_record_Inr [OF a] L show ?thesis by auto
  next
    assume "\<exists>i<length kvs. kv = kvs ! i"
    then obtain i where "i < nat nb" "kv = kvs ! i" using len by auto
    with bond_record_Inr [of flt "file_lines text" "np_transpose rows" nb "is_spin_polarized r" i kv]
      b L show ?thesis by auto
  qed
qed

lemma bond_records_labels:
  assumes "\<forall>i<n. bond_record flt contents data nb (spin_channels pol) i = Inr (kvs ! i)"
    and "length kvs = n"
  shows "\<forall>i<n. \<exists>len st. get_bond_data flt (contents ! (3 + i)) = Inr (fst (kvs ! i), len, st)"
    and "''average'' \<notin> fst ` set kvs"
proof -
  show L: "\<forall>i<n. \<exists>len st. get_bond_data flt (contents ! (3 + i)) = Inr (fst (kvs ! i), len, st)"
    using assms(1) bond_record_Inr [of flt contents data nb pol] by blast
  show "''average'' \<notin> fst ` set kvs"
  proof
    assume "''average'' \<in> fst ` set kvs"
    then obtain i where "i < n" "fst (kvs ! i) = ''average''"
      using assms(2) by (auto simp: in_set_conv_nth)
    with L bond_label_not_average show False by metis
  qed
qed

lemma cohp_data_keys:
  assumes "cohp_data r = fold (\<lambda>kv. AList.update (fst kv) (snd kv)) kvs [(''average'', avg)]"
    and "''average'' \<notin> fst ` set kvs"
  shows "distinct (map fst (cohp_data r))"
    and "fst ` set (cohp_data r) = insert ''average'' (fst ` set kvs)"
    and "map_of (cohp_data r) ''average'' = Some avg"
    and "distinct (bond_keys r)"
    and "set (bond_keys r) = fst ` set kvs"
proof -
  show "distinct (map fst (cohp_data r))"
    unfolding assms(1) by (rule distinct_fold_update) simp
  then show "distinct (bond_keys r)" by (simp add: bond_keys_def)
  show K: "fst ` set (cohp_data r) = insert ''average'' (fst ` set kvs)"
    unfolding assms(1) keys_fold_update by simp
  have "map_of (rev kvs) ''average'' = None"
    using assms(2) by (simp add: map_of_eq_None_iff)
  then show "map_of (cohp_data r) ''average'' = Some avg"
    unfolding assms(1) map_of_fold_update by (simp add: map_add_def)
  have "set (bond_keys r) = fst ` set (cohp_data r) - {''average''}"
    by (auto simp: bond_keys_def)
  then show "set (bond_keys r) = fst ` set kvs"
    using K assms(2) by simp
qed

section \<open>Properties of the reader of COHPCAR files\<close>

lemmas cohpcar_eval =
  Cohpcar_init_def Cohpcar_lines_def read_parameters_def read_data_def np_row_def np_array_def
  np_transpose_def average_record_def bond_record_def bond_eval dec_float_def py_eval upt_rec

text \<open>
  Claim C2. In the result of a successful construction, every entry of
  \<^verbatim>\<open>cohp_data\<close>, the one of the average included, has under \<^verbatim>\<open>"COHP"\<close> and under
  \<^verbatim>\<open>"ICOHP"\<close> exactly the spin channels of the file (both, or the first only), and each
  of their sequences is as long as \<^verbatim>\<open>energies\<close>.
\<close>

theorem C2_lengths_and_channels:
  assumes "Cohpcar_init coops flt npf text = Inr r"
  shows "\<forall>kv\<in>set (cohp_data r).
           map fst (COHP (snd kv)) = spin_channels (is_spin_polarized r) \<and>
           map fst (ICOHP (snd kv)) = spin_channels (is_spin_polarized r) \<and>
           (\<forall>sv\<in>set (COHP (snd kv)). length (snd sv) = length (energies r)) \<and>
           (\<forall>sv\<in>set (ICOHP (snd kv)). length (snd sv) = length (energies r))"
  using cohp_data_channels [OF assms] by auto

lemma polarized_file_decoded:
  "Cohpcar_init False dec_float dec_float polarized_file =
     Inr \<lparr>are_coops = False, efermi = 1 / 2, is_spin_polarized = True, energies = [- 1, 0],
          cohp_data =
            [(''average'',
              \<lparr>COHP = [(Up, [1, 11]), (Down, [5, 15])], ICOHP = [(Up, [2, 12]), (Down, [6, 16])],
               bond_length = None, sites = None\<rparr>),
             (''Fe1-Fe9'',
              \<lparr>COHP = [(Up, [3, 13]), (Down, [7, 17])], ICOHP = [(Up, [4, 14]), (Down, [8, 18])],
               bond_length = Some (49 / 20), sites = Some (0, 8)\<rparr>)]\<rparr>"
  by (simp add: polarized_file_def cohpcar_eval)

theorem C2_lengths_and_channels_witness:
  "list_all (\<lambda>kv. map fst (COHP (snd kv)) = [Up, Down] \<and> map fst (ICOHP (snd kv)) = [Up, Down] \<and>
      list_all (\<lambda>sv. length (snd sv) = 2) (COHP (snd kv)) \<and>
      list_all (\<lambda>sv. length (snd sv) = 2) (ICOHP (snd kv)))
    (case Cohpcar_init False dec_float dec_float polarized_file of Inl e \<Rightarrow> [] | Inr r \<Rightarrow> cohp_data r)"
  using C2_lengths_and_channels [OF polarized_file_decoded]
  by (simp add: polarized_file_decoded spin_channels_def)

lemma twin_bonds_file_decoded:
  "Cohpcar_init False dec_float dec_float twin_bonds_file = Inr twin_bonds_decoded"
  by (simp add: twin_bonds_file_def twin_bonds_decoded_def cohpcar_eval)

text \<open>
  Claim C6, as stated, fails: a file that declares two bonds between the same pair of
  sites gives both the same label, and \<^verbatim>\<open>cohp_data\<close> keeps one key for them.
\<close>

theorem C6_twin_bonds_one_key:
  "bond_count twin_bonds_file = Some 2 \<and>
   Cohpcar_init False dec_float dec_float twin_bonds_file = Inr twin_bonds_decoded \<and>
   bond_keys twin_bonds_decoded = [''Fe1-Fe2'']"
  by (simp add: twin_bonds_file_decoded)
    (simp add: twin_bonds_file_def twin_bonds_decoded_def bond_count_def bond_keys_def py_eval)

text \<open>
  Claim C6, amended. After a successful construction the keys of \<^verbatim>\<open>cohp_data\<close> are
  distinct, \<^verbatim>\<open>average\<close> is one of them and no bond label equals it, and the other keys
  are the labels of the header lines of the declared bonds: their number is the number of
  different labels, at most the bond count (no bond, when the count is negative), and
  equal to it exactly when the labels of the header lines are pairwise different.
\<close>

theorem C6_bond_keys:
  assumes "Cohpcar_init coops flt npf text = Inr r"
  shows "\<exists>nb labels.
     bond_count text = Some nb \<and> length labels = nat nb \<and>
     (\<forall>i<nat nb. \<exists>len st.
        get_bond_data flt (file_lines text ! (3 + i)) = Inr (labels ! i, len, st)) \<and>
     distinct (map fst (cohp_data r)) \<and>
     ''average'' \<in> fst ` set (cohp_data r) \<and>
     ''average'' \<notin> set labels \<and>
     set (bond_keys r) = set labels \<and>
     length (bond_keys r) = card (set labels) \<and>
     length (bond_keys r) \<le> nat nb \<and>
     (length (bond_keys r) = nat nb \<longleftrightarrow> distinct labels)"
proof -
  from Cohpcar_init_facts [OF assms] obtain nb rows avg kvs where
    bc: "bond_count text = Some nb" and
    len: "length kvs = nat nb" and
    b: "\<forall>i<nat nb.
       bond_record flt (file_lines text) (np_transpose rows) nb
         (spin_channels (is_spin_polarized r)) i = Inr (kvs ! i)" and
    cd: "cohp_data r = fold (\<lambda>kv. AList.update (fst kv) (snd kv)) kvs [(''average'', avg)]"
    by blast
  define labels where "labels = map fst kvs"
  note L = bond_records_labels [OF b len]
  note K = cohp_data_keys [OF cd L(2)]
  have l1: "length labels = nat nb" by (simp add: labels_def len)
  have l2: "\<forall>i<nat nb. \<exists>len st.
        get_bond_data flt (file_lines text ! (3 + i)) = Inr (labels ! i, len, st)"
    using L(1) len by (simp add: labels_def)
  have l3: "''average'' \<notin> set labels" using L(2) by (simp add: labels_def)
  have l4: "set (bond_keys r) = set labels" using K(5) by (simp add: labels_def)
  have l5: "length (bond_keys r) = card (set labels)"
    using distinct_card [OF K(4)] l4 by simp
  have l6: "length (bond_keys r) \<le> nat nb"
    unfolding l5 using card_length [of labels] l1 by simp
  have l7: "length (bond_keys r) = nat nb \<longleftrightarrow> distinct labels"
    unfolding l5 using card_distinct [of labels] distinct_card [of labels] l1 by auto
  have l8: "''average'' \<in> fst ` set (cohp_data r)" using K(2) by simp
  show ?thesis
    using bc l1 l2 K(1) l8 l3 l4 l5 l6 l7 by blast
qed

theorem C6_bond_keys_witness:
  "bond_count polarized_file = Some 1 \<and>
   (case Cohpcar_init False dec_float dec_float polarized_file of
      Inl e \<Rightarrow> False
    | Inr r \<Rightarrow> bond_keys r = [''Fe1-Fe9''] \<and> distinct (map fst (cohp_data r)))"
proof -
  have "bond_count polarized_file = Some 1"
    by (simp add: polarized_file_def bond_count_def py_eval)
  moreover obtain r where r: "Cohpcar_init False dec_float dec_float polarized_file = Inr r"
    and k: "bond_keys r = [''Fe1-Fe9'']"
    by (simp add: polarized_file_def cohpcar_eval bond_keys_def)
  moreover have "distinct (map fst (cohp_data r))"
    using C6_bond_keys [OF r] by blast
  ultimately show ?thesis by simp
qed

lemma py_getitem_column:
  assumes "py_getitem (np_transpose rows) (int k) = Inr c"
  shows "k < length (np_transpose rows) \<and> c = column rows k"
  using assms np_transpose_nth [of k rows] by (simp split: if_splits)

lemma average_offset:
  assumes "0 \<le> nb"
  shows "1 + 2 * int s * (nb + 1) = int (1 + 2 * s * (nat nb + 1)) \<and>
         2 + 2 * int s * (nb + 1) = int (2 + 2 * s * (nat nb + 1))"
proof -
  from assms obtain m where "nb = int m" by (metis nonneg_int_cases)
  then show ?thesis by (simp add: algebra_simps)
qed

lemma bond_offset:
  assumes "i < nat nb"
  shows "2 * (int i + int s * (nb + 1)) + 3 = int (2 * (i + s * (nat nb + 1)) + 3) \<and>
         2 * (int i + int s * (nb + 1)) + 4 = int (2 * (i + s * (nat nb + 1)) + 4)"
proof -
  from assms have "0 \<le> nb" by simp
  then obtain m where "nb = int m" by (metis nonneg_int_cases)
  then show ?thesis by (simp add: algebra_simps)
qed

lemma bond_record_columns:
  assumes "bond_record flt contents (np_transpose rows) nb (spin_channels pol) i = Inr kv"
    and "i < nat nb" and "s < length (spin_channels pol)"
  shows "2 * (i + s * (nat nb + 1)) + 4 < length (np_transpose rows) \<and>
         map_of (COHP (snd kv)) (spin_channels pol ! s)
           = Some (column rows (2 * (i + s * (nat nb + 1)) + 3)) \<and>
         map_of (ICOHP (snd kv)) (spin_channels pol ! s)
           = Some (column rows (2 * (i + s * (nat nb + 1)) + 4))"
proof -
  from bond_record_Inr [OF assms(1)] assms(3) obtain c ic where
    "py_getitem (np_transpose rows) (2 * (int i + int s * (nb + 1)) + 3) = Inr c"
    "py_getitem (np_transpose rows) (2 * (int i + int s * (nb + 1)) + 4) = Inr ic" and
    m: "map_of (COHP (snd kv)) (spin_channels pol ! s) = Some c"
    "map_of (ICOHP (snd kv)) (spin_channels pol ! s) = Some ic"
    by blast
  then have
    "py_getitem (np_transpose rows) (int (2 * (i + s * (nat nb + 1)) + 3)) = Inr c"
    "py_getitem (np_transpose rows) (int (2 * (i + s * (nat nb + 1)) + 4)) = Inr ic"
    using bond_offset [OF assms(2), of s] by simp_all
  from py_getitem_column [OF this(1)] py_getitem_column [OF this(2)] m
  show ?thesis by simp
qed

lemma average_record_columns:
  assumes "average_record (np_transpose rows) nb (spin_channels pol) = Inr avg"
    and "s < length (spin_channels pol)"
  shows "\<exists>c ic.
      py_getitem (np_transpose rows) (1 + 2 * int s * (nb + 1)) = Inr c \<and>
      py_getitem (np_transpose rows) (2 + 2 * int s * (nb + 1)) = Inr ic \<and>
      map_of (COHP avg) (spin_channels pol ! s) = Some c \<and>
      map_of (ICOHP avg) (spin_channels pol ! s) = Some ic \<and>
      (0 \<le> nb \<longrightarrow>
         2 + 2 * s * (nat nb + 1) < length (np_transpose rows) \<and>
         c = column rows (1 + 2 * s * (nat nb + 1)) \<and>
         ic = column rows (2 + 2 * s * (nat nb + 1)))"
proof -
  from average_record_Inr [OF assms(1)] assms(2) obtain c ic where
    g: "py_getitem (np_transpose rows) (1 + 2 * int s * (nb + 1)) = Inr c"
    "py_getitem (np_transpose rows) (2 + 2 * int s * (nb + 1)) = Inr ic" and
    m: "map_of (COHP avg) (spin_channels pol ! s) = Some c"
    "map_of (ICOHP avg) (spin_channels pol ! s) = Some ic"
    by blast
  have "2 + 2 * s * (nat nb + 1) < length (np_transpose rows) \<and>
         c = column rows (1 + 2 * s * (nat nb + 1)) \<and>
         ic = column rows (2 + 2 * s * (nat nb + 1))" if "0 \<le> nb"
  proof -
    from g average_offset [OF that, of s] have
      "py_getitem (np_transpose rows) (int (1 + 2 * s * (nat nb + 1))) = Inr c"
      "py_getitem (np_transpose rows) (int (2 + 2 * s * (nat nb + 1))) = Inr ic"
      by simp_all
    from py_getitem_column [OF this(1)] py_getitem_column [OF this(2)]
    show ?thesis by simp
  qed
  with g m show ?thesis by blast
qed

text \<open>
  Claim C5. After a successful construction, the second line of the file has at least two
  tokens; the first is an integer \<open>n\<close> and the bond count is \<open>n - 1\<close>: that many header
  lines, from line 3 on, give the keys of \<^verbatim>\<open>cohp_data\<close> besides \<^verbatim>\<open>average\<close>, and the
  data rows start at line \<open>n + 2\<close>. The second token is an integer, the file is
  spin-polarized exactly when it is 2, and every entry has two channels then and one
  otherwise. \<^verbatim>\<open>efermi\<close> is the last token converted to float.
\<close>

theorem C5_parameter_line:
  assumes "Cohpcar_init coops flt npf text = Inr r"
  shows "\<exists>p0 p1 ps n sf rows labels.
     1 < length (file_lines text) \<and>
     py_split_ws (file_lines text ! 1) = p0 # p1 # ps \<and>
     py_int p0 = Some n \<and> py_int p1 = Some sf \<and>
     bond_count text = Some (n - 1) \<and>
     is_spin_polarized r = (sf = 2) \<and>
     flt (last (p0 # p1 # ps)) = Some (efermi r) \<and>
     (\<forall>kv\<in>set (cohp_data r).
        map fst (COHP (snd kv)) = (if sf = 2 then [Up, Down] else [Up]) \<and>
        map fst (ICOHP (snd kv)) = (if sf = 2 then [Up, Down] else [Up])) \<and>
     length labels = nat (n - 1) \<and>
     (\<forall>i<nat (n - 1). \<exists>len st.
        get_bond_data flt (file_lines text ! (3 + i)) = Inr (labels ! i, len, st)) \<and>
     fst ` set (cohp_data r) = insert ''average'' (set labels) \<and>
     collect (np_row npf) (py_slice_from (file_lines text) (n + 2)) = Inr rows \<and>
     energies r = column rows 0"
proof -
  from Cohpcar_init_facts [OF assms] obtain nb rows avg kvs where
    bc: "bond_count text = Some nb" and
    p: "read_parameters flt (file_lines text)
       = Inr (nb, efermi r, spin_channels (is_spin_polarized r), is_spin_polarized r)" and
    rows: "collect (np_row npf) (py_slice_from (file_lines text) (nb + 3)) = Inr rows" and
    en: "energies r = column rows 0" and
    len: "length kvs = nat nb" and
    b: "\<forall>i<nat nb.
       bond_record flt (file_lines text) (np_transpose rows) nb
         (spin_channels (is_spin_polarized r)) i = Inr (kvs ! i)" and
    cd: "cohp_data r = fold (\<lambda>kv. AList.update (fst kv) (snd kv)) kvs [(''average'', avg)]"
    by blast
  from read_parameters_Inr [OF p] obtain p0 p1 ps n sf where
    t: "1 < length (file_lines text)" "py_split_ws (file_lines text ! 1) = p0 # p1 # ps"
      "py_int p0 = Some n" "py_int p1 = Some sf"
      "flt (last (p0 # p1 # ps)) = Some (efermi r)" and
    nb: "nb = n - 1" and pol: "is_spin_polarized r = (sf = 2)"
    by blast
  note L = bond_records_labels [OF b len]
  note K = cohp_data_keys [OF cd L(2)]
  have ch: "\<forall>kv\<in>set (cohp_data r).
        map fst (COHP (snd kv)) = (if sf = 2 then [Up, Down] else [Up]) \<and>
        map fst (ICOHP (snd kv)) = (if sf = 2 then [Up, Down] else [Up])"
    using cohp_data_channels [OF assms] pol by (simp add: spin_channels_def)
  have r2: "collect (np_row npf) (py_slice_from (file_lines text) (n + 2)) = Inr rows"
    using rows nb by (simp add: algebra_simps)
  have c1: "bond_count text = Some (n - 1)" using bc nb by simp
  have c2: "length (map fst kvs) = nat (n - 1)" using len nb by simp
  have c3: "\<forall>i<nat (n - 1). \<exists>len st.
        get_bond_data flt (file_lines text ! (3 + i)) = Inr (map fst kvs ! i, len, st)"
    using L(1) nb len by simp
  have c4: "fst ` set (cohp_data r) = insert ''average'' (set (map fst kvs))"
    using K(2) by simp
  show ?thesis
    apply (rule exI [where x = p0], rule exI [where x = p1], rule exI [where x = ps])
    apply (rule exI [where x = n], rule exI [where x = sf])
    apply (rule exI [where x = rows], rule exI [where x = "map fst kvs"])
    apply (intro conjI)
    apply (fact t c1 pol ch c2 c3 c4 r2 en)+
    done
qed

theorem C5_parameter_line_witness:
  "py_split_ws (file_lines polarized_file ! 1) = [''2'', ''2'', ''0.5''] \<and>
   py_int ''2'' = Some 2 \<and> dec_float ''0.5'' = Some (1 / 2) \<and>
   bond_count polarized_file = Some 1 \<and>
   (case Cohpcar_init False dec_float dec_float polarized_file of
      Inl e \<Rightarrow> False
    | Inr r \<Rightarrow> is_spin_polarized r \<and> efermi r = 1 / 2 \<and> length (cohp_data r) = 2)"
proof -
  have "py_split_ws (file_lines polarized_file ! 1) = [''2'', ''2'', ''0.5'']"
    "py_int ''2'' = Some 2" "dec_float ''0.5'' = Some (1 / 2)"
    "bond_count polarized_file = Some 1"
    by (simp_all add: polarized_file_def bond_count_def dec_float_def py_eval)
  then show ?thesis
    using C5_parameter_line [OF polarized_file_decoded]
    by (simp add: polarized_file_decoded)
qed

lemma column_bound:
  assumes "list_all (\<lambda>row. length row = n) rows" and "k < n"
  shows "list_all (\<lambda>row. k < length row) rows"
  using assms by (simp add: list_all_iff)

lemma column_no_Suc: "column_no rows (Suc k) = column rows k"
  by (simp add: column_no_def)

text \<open>
  Claim C1, as stated, fails. It numbers the columns from 1, the energy column being
  column 1, and puts the COHP sequence of bond \<open>i\<close> in channel \<open>s\<close> in column
  \<open>2 * (i + s * (bondCount + 1)) + 3\<close>. In the spin-polarized file with one bond that is
  column 7 for the bond 0 and the second channel, which holds 6 and 16: the ICOHP values
  of the average. The reader takes 7 and 17, the column with the number 8.
\<close>

theorem C1_one_indexed_numbering_fails:
  "bond_count polarized_file = Some 1 \<and>
   collect (np_row dec_float) (py_slice_from (file_lines polarized_file) 4) = Inr polarized_rows \<and>
   column_no polarized_rows 1 = [- 1, 0] \<and>
   column_no polarized_rows 7 = [6, 16] \<and>
   column_no polarized_rows 8 = [7, 17] \<and>
   (case Cohpcar_init False dec_float dec_float polarized_file of
      Inl e \<Rightarrow> False
    | Inr r \<Rightarrow>
        energies r = [- 1, 0] \<and>
        (case map_of (cohp_data r) ''Fe1-Fe9'' of
           None \<Rightarrow> False
         | Some b \<Rightarrow>
             map_of (COHP b) Down = Some [7, 17] \<and>
             map_of (COHP b) Down \<noteq> Some (column_no polarized_rows 7)))"
  by (simp add: polarized_file_decoded)
    (simp add: polarized_file_def polarized_rows_def bond_count_def column_no_def column_def
      np_row_def dec_float_def py_eval)

text \<open>
  Claim C1, amended: the offsets are counted from the energy column, which is the column
  at offset 0 (the column at offset \<open>k\<close> has the number \<open>k + 1\<close> where the energy column is
  column 1). After a successful construction, with \<open>nb\<close> the bond count of the parameters
  line and \<open>rows\<close> the data rows read from line \<open>nb + 3\<close> on, whose column at offset 0 is
  \<^verbatim>\<open>energies\<close>: for every bond index \<open>i < nb\<close> and every spin channel index \<open>s\<close> of the
  file, the entry assigned for the header line \<open>3 + i\<close> has as its COHP sequence the column
  at offset \<open>2 * (i + s * (nb + 1)) + 3\<close> and as its ICOHP sequence the column at offset
  \<open>2 * (i + s * (nb + 1)) + 4\<close>, both within the rows; it is the entry under its label
  unless a later bond has the same label. The entry under \<^verbatim>\<open>average\<close> has as sequences
  \<^verbatim>\<open>data[1 + 2*s*(nb + 1)]\<close> and \<^verbatim>\<open>data[2 + 2*s*(nb + 1)]\<close>, which for a bond count
  that is not negative are the columns at these offsets.
\<close>

theorem C1_column_addressing:
  assumes "Cohpcar_init coops flt npf text = Inr r"
  shows "\<exists>nb rows kvs avg.
     bond_count text = Some nb \<and>
     collect (np_row npf) (py_slice_from (file_lines text) (nb + 3)) = Inr rows \<and>
     energies r = column rows 0 \<and>
     length kvs = nat nb \<and>
     (\<forall>i<nat nb.
        (\<exists>len st. get_bond_data flt (file_lines text ! (3 + i)) = Inr (fst (kvs ! i), len, st)) \<and>
        ((\<forall>j. i < j \<and> j < nat nb \<longrightarrow> fst (kvs ! j) \<noteq> fst (kvs ! i)) \<longrightarrow>
           map_of (cohp_data r) (fst (kvs ! i)) = Some (snd (kvs ! i))) \<and>
        (\<forall>s<length (spin_channels (is_spin_polarized r)).
           list_all (\<lambda>row. 2 * (i + s * (nat nb + 1)) + 4 < length row) rows \<and>
           map_of (COHP (snd (kvs ! i))) (spin_channels (is_spin_polarized r) ! s)
             = Some (column rows (2 * (i + s * (nat nb + 1)) + 3)) \<and>
           map_of (ICOHP (snd (kvs ! i))) (spin_channels (is_spin_polarized r) ! s)
             = Some (column rows (2 * (i + s * (nat nb + 1)) + 4)))) \<and>
     map_of (cohp_data r) ''average'' = Some avg \<and>
     (\<forall>s<length (spin_channels (is_spin_polarized r)). \<exists>c ic.
        py_getitem (np_transpose rows) (1 + 2 * int s * (nb + 1)) = Inr c \<and>
        py_getitem (np_transpose rows) (2 + 2 * int s * (nb + 1)) = Inr ic \<and>
        map_of (COHP avg) (spin_channels (is_spin_polarized r) ! s) = Some c \<and>
        map_of (ICOHP avg) (spin_channels (is_spin_polarized r) ! s) = Some ic \<and>
        (0 \<le> nb \<longrightarrow>
           list_all (\<lambda>row. 2 + 2 * s * (nat nb + 1) < length row) rows \<and>
           c = column rows (1 + 2 * s * (nat nb + 1)) \<and>
           ic = column rows (2 + 2 * s * (nat nb + 1))))"
proof -
  let ?chans = "spin_channels (is_spin_polarized r)"
  from Cohpcar_init_facts [OF assms] obtain nb rows avg kvs where
    bc: "bond_count text = Some nb" and
    rows: "collect (np_row npf) (py_slice_from (file_lines text) (nb + 3)) = Inr rows" and
    reg: "list_all (\<lambda>row. length row = length (np_transpose rows)) rows" and
    en: "energies r = column rows 0" and
    a: "average_record (np_transpose rows) nb ?chans = Inr avg" and
    len: "length kvs = nat nb" and
    b: "\<forall>i<nat nb.
       bond_record flt (file_lines text) (np_transpose rows) nb ?chans i = Inr (kvs ! i)" and
    cd: "cohp_data r = fold (\<lambda>kv. AList.update (fst kv) (snd kv)) kvs [(''average'', avg)]"
    by blast
  note L = bond_records_labels [OF b len]
  note K = cohp_data_keys [OF cd L(2)]
  have last: "map_of (cohp_data r) (fst (kvs ! i)) = Some (snd (kvs ! i))"
    if "i < nat nb" "\<forall>j. i < j \<and> j < nat nb \<longrightarrow> fst (kvs ! j) \<noteq> fst (kvs ! i)" for i
    unfolding cd using that len by (intro map_of_fold_update_last) simp_all
  have cols: "list_all (\<lambda>row. 2 * (i + s * (nat nb + 1)) + 4 < length row) rows \<and>
           map_of (COHP (snd (kvs ! i))) (?chans ! s)
             = Some (column rows (2 * (i + s * (nat nb + 1)) + 3)) \<and>
           map_of (ICOHP (snd (kvs ! i))) (?chans ! s)
             = Some (column rows (2 * (i + s * (nat nb + 1)) + 4))"
    if "i < nat nb" "s < length ?chans" for i s
    using bond_record_columns [of flt "file_lines text" rows nb "is_spin_polarized r" i "kvs ! i" s]
      b that column_bound [OF reg] by simp
  have bonds: "\<forall>i<nat nb.
        (\<exists>len st. get_bond_data flt (file_lines text ! (3 + i)) = Inr (fst (kvs ! i), len, st)) \<and>
        ((\<forall>j. i < j \<and> j < nat nb \<longrightarrow> fst (kvs ! j) \<noteq> fst (kvs ! i)) \<longrightarrow>
           map_of (cohp_data r) (fst (kvs ! i)) = Some (snd (kvs ! i))) \<and>
        (\<forall>s<length ?chans.
           list_all (\<lambda>row. 2 * (i + s * (nat nb + 1)) + 4 < length row) rows \<and>
           map_of (COHP (snd (kvs ! i))) (?chans ! s)
             = Some (column rows (2 * (i + s * (nat nb + 1)) + 3)) \<and>
           map_of (ICOHP (snd (kvs ! i))) (?chans ! s)
             = Some (column rows (2 * (i + s * (nat nb + 1)) + 4)))"
    using L(1) last cols by simp
  have average: "\<forall>s<length ?chans. \<exists>c ic.
        py_getitem (np_transpose rows) (1 + 2 * int s * (nb + 1)) = Inr c \<and>
        py_getitem (np_transpose rows) (2 + 2 * int s * (nb + 1)) = Inr ic \<and>
        map_of (COHP avg) (?chans ! s) = Some c \<and>
        map_of (ICOHP avg) (?chans ! s) = Some ic \<and>
        (0 \<le> nb \<longrightarrow>
           list_all (\<lambda>row. 2 + 2 * s * (nat nb + 1) < length row) rows \<and>
           c = column rows (1 + 2 * s * (nat nb + 1)) \<and>
           ic = column rows (2 + 2 * s * (nat nb + 1)))"
  proof (intro allI impI)
    fix s assume "s < length ?chans"
    from average_record_columns [OF a this] obtain c ic where
      "py_getitem (np_transpose rows) (1 + 2 * int s * (nb + 1)) = Inr c"
      "py_getitem (np_transpose rows) (2 + 2 * int s * (nb + 1)) = Inr ic"
      "map_of (COHP avg) (?chans ! s) = Some c"
      "map_of (ICOHP avg) (?chans ! s) = Some ic"
      "0 \<le> nb \<longrightarrow>
         2 + 2 * s * (nat nb + 1) < length (np_transpose rows) \<and>
         c = column rows (1 + 2 * s * (nat nb + 1)) \<and>
         ic = column rows (2 + 2 * s * (nat nb + 1))"
      by blast
    then show "\<exists>c ic.
        py_getitem (np_transpose rows) (1 + 2 * int s * (nb + 1)) = Inr c \<and>
        py_getitem (np_transpose rows) (2 + 2 * int s * (nb + 1)) = Inr ic \<and>
        map_of (COHP avg) (?chans ! s) = Some c \<and>
        map_of (ICOHP avg) (?chans ! s) = Some ic \<and>
        (0 \<le> nb \<longrightarrow>
           list_all (\<lambda>row. 2 + 2 * s * (nat nb + 1) < length row) rows \<and>
           c = column rows (1 + 2 * s * (nat nb + 1)) \<and>
           ic = column rows (2 + 2 * s * (nat nb + 1)))"
      using column_bound [OF reg] by (intro exI [where x = c] exI [where x = ic]) simp
  qed
  show ?thesis
    apply (rule exI [where x = nb], rule exI [where x = rows])
    apply (rule exI [where x = kvs], rule exI [where x = avg])
    apply (intro conjI)
    apply (fact bc rows en len bonds K(3) average)+
    done
qed

theorem C1_column_addressing_witness:
  "bond_count polarized_file = Some 1 \<and>
   column [[- 1, 1, 2, 3, 4, 5, 6, 7, 8], [0, 11, 12, 13, 14, 15, 16, 17, 18 :: rat]] 7 = [7, 17] \<and>
   (case Cohpcar_init False dec_float dec_float polarized_file of
      Inl e \<Rightarrow> False
    | Inr r \<Rightarrow>
        (case map_of (cohp_data r) ''Fe1-Fe9'' of
           None \<Rightarrow> False
         | Some b \<Rightarrow> map_of (COHP b) Down = Some [7, 17] \<and> map_of (ICOHP b) Down = Some [8, 18]))"
proof -
  have "bond_count polarized_file = Some 1"
    by (simp add: polarized_file_def bond_count_def py_eval)
  then show ?thesis
    using C1_column_addressing [OF polarized_file_decoded]
    by (simp add: polarized_file_decoded column_def)
qed

section \<open>The third line of a COHPCAR file\<close>

lemma read_parameters_third_line:
  "read_parameters flt (contents[2 := l]) = read_parameters flt contents"
  by (simp add: read_parameters_def py_getitem_1)

lemma py_slice_from_third_line:
  assumes "0 \<le> nb"
  shows "py_slice_from (contents[2 := l]) (nb + 3) = py_slice_from contents (nb + 3)"
proof (cases "length contents \<le> 2")
  case True
  then have "contents[2 := l] = contents" by (rule list_update_beyond)
  then show ?thesis by simp
next
  case False
  with assms have "2 < min (length contents) (nat (nb + 3))" by simp
  then show ?thesis
    using assms by (simp add: py_slice_from_def slice_bound_def drop_update_cancel)
qed

lemma read_data_third_line:
  "0 \<le> nb \<Longrightarrow> read_data npf (contents[2 := l]) nb = read_data npf contents nb"
  by (simp add: read_data_def py_slice_from_third_line)

lemma bond_record_third_line:
  "bond_record flt (contents[2 := l]) data nb spins i = bond_record flt contents data nb spins i"
proof -
  have "py_getitem (contents[2 := l]) (3 + int i) = py_getitem contents (3 + int i)"
    using py_getitem_nat [of "contents[2 := l]" "3 + i"] py_getitem_nat [of contents "3 + i"]
    by simp
  then show ?thesis by (simp add: bond_record_def)
qed

lemma Cohpcar_lines_third_line:
  assumes "\<And>ef spins pol nb. read_parameters flt contents = Inr (nb, ef, spins, pol) \<Longrightarrow> 0 \<le> nb"
  shows "Cohpcar_lines coops flt npf (contents[2 := l]) = Cohpcar_lines coops flt npf contents"
proof (cases "read_parameters flt contents")
  case (Inl e)
  then show ?thesis by (simp add: Cohpcar_lines_def read_parameters_third_line)
next
  case (Inr p)
  obtain nb ef spins pol where p: "p = (nb, ef, spins, pol)" by (cases p) auto
  with Inr assms have "0 \<le> nb" by blast
  then show ?thesis
    by (simp add: Cohpcar_lines_def read_parameters_third_line Inr p read_data_third_line
        bond_record_third_line [abs_def])
qed

text \<open>
  Claim C10, amended. When the parameters line declares a bond count that is not negative
  (a first token of at least 1), the third line of the file is not read: a text that
  differs from another in that line only gives the same result or the same exception.
\<close>

theorem C10_third_line_unread:
  assumes "bond_count text = Some nb" and "0 \<le> nb"
    and "file_lines text' = (file_lines text)[2 := l]"
  shows "Cohpcar_init coops flt npf text' = Cohpcar_init coops flt npf text"
proof -
  have "0 \<le> nb'" if "read_parameters flt (file_lines text) = Inr (nb', ef, spins, pol)"
    for nb' ef spins pol
    using read_parameters_bond_count [OF that] assms(1,2) by simp
  then show ?thesis
    unfolding Cohpcar_init_def assms(3) by (rule Cohpcar_lines_third_line)
qed

text \<open>
  Claim C10, as stated, fails: with the count 0 on the parameters line the bond count is
  -1, the data rows start at the third line, and two files that differ in that line only
  are read with different energies.
\<close>

theorem C10_zero_count_reads_third_line:
  "file_lines zero_count_file' = (file_lines zero_count_file)[2 := ''5.0 6.0 7.0''] \<and>
   Cohpcar_init False dec_float dec_float zero_count_file =
     Inr \<lparr>are_coops = False, efermi = 0, is_spin_polarized = False, energies = [1],
          cohp_data = [(''average'', \<lparr>COHP = [(Up, [2])], ICOHP = [(Up, [3])],
                                       bond_length = None, sites = None\<rparr>)]\<rparr> \<and>
   Cohpcar_init False dec_float dec_float zero_count_file' =
     Inr \<lparr>are_coops = False, efermi = 0, is_spin_polarized = False, energies = [5],
          cohp_data = [(''average'', \<lparr>COHP = [(Up, [6])], ICOHP = [(Up, [7])],
                                       bond_length = None, sites = None\<rparr>)]\<rparr>"
  by (simp add: zero_count_file_def zero_count_file'_def cohpcar_eval)

theorem C10_third_line_unread_witness:
  "bond_count polarized_file = Some 1 \<and>
   file_lines polarized_file' = (file_lines polarized_file)[2 := ''another comment''] \<and>
   Cohpcar_init False dec_float dec_float polarized_file' = Cohpcar_init False dec_float dec_float polarized_file"
proof -
  have a: "bond_count polarized_file = Some 1"
    by (simp add: polarized_file_def bond_count_def py_eval)
  have b: "file_lines polarized_file' = (file_lines polarized_file)[2 := ''another comment'']"
    by (simp add: polarized_file_def polarized_file'_def py_eval)
  show ?thesis using a b C10_third_line_unread [OF a _ b] by simp
qed

section \<open>The steps of the reader of ICOHPLIST files\<close>

lemma py_getitem_numeral:
  "py_getitem xs (numeral k) =
     (if numeral k < length xs then Inr (xs ! numeral k) else Inl IndexError)"
  using py_getitem_nat [of xs "numeral k"] by simp

lemma icohp_record_Inr:
  assumes "icohp_record flt data nb pol b = Inr kv"
  shows "b < length data \<and> 5 < length (py_split_ws (data ! b)) \<and>
         fst kv = summary_label (data ! b) \<and>
         flt (py_split_ws (data ! b) ! 3) = Some (entry_length (snd kv)) \<and>
         py_int (py_split_ws (data ! b) ! 5) = Some (number_of_bonds (snd kv)) \<and>
         (\<exists>up. flt (py_split_ws (data ! b) ! 4) = Some up \<and>
            (if pol then
               b + nb + 1 < length data \<and> 4 < length (py_split_ws (data ! (b + nb + 1))) \<and>
               (\<exists>down. flt (py_split_ws (data ! (b + nb + 1)) ! 4) = Some down \<and>
                  icohp (snd kv) = [(Up, up), (Down, down)])
             else icohp (snd kv) = [(Up, up)]))"
proof -
  have idx: "int b + int nb + 1 = int (b + nb + 1)" by simp
  show ?thesis
    using assms unfolding icohp_record_def Let_def idx py_getitem_nat
    by (auto simp: andthen_eq_Inr py_getitem_1 py_getitem_numeral to_float_eq_Inr to_int_eq_Inr
        summary_label_def split: if_splits)
qed

lemma Icohplist_lines_eq:
  "Icohplist_lines coops flt data =
     (if data = [] then Inl IndexError
      else andthen (collect (icohp_record flt data (summary_num_bonds data)
                      (py_in ''distance'' (data ! (length data div 2))))
                    [0..<summary_num_bonds data])
             (\<lambda>kvs. Inr \<lparr>list_are_coops = coops,
                   list_is_spin_polarized = py_in ''distance'' (data ! (length data div 2)),
                   icohplist = fold (\<lambda>kv. AList.update (fst kv) (snd kv)) kvs []\<rparr>))"
proof (cases "data = []")
  case True
  then show ?thesis by (simp add: Icohplist_lines_def py_getitem_0)
next
  case False
  then have "length data div 2 < length data" by simp
  then show ?thesis
    using False
    by (cases "collect (icohp_record flt data (summary_num_bonds data)
                      (py_in ''distance'' (data ! (length data div 2))))
                    [0..<summary_num_bonds data]")
      (simp_all add: Icohplist_lines_def Let_def dict_loop_collect summary_num_bonds_def)
qed

lemma Icohplist_init_facts:
  assumes "Icohplist_init coops flt text = Inr r"
  shows "\<exists>kvs.
     summary_lines text \<noteq> [] \<and>
     list_is_spin_polarized r
       = py_in ''distance'' (summary_lines text ! (length (summary_lines text) div 2)) \<and>
     length kvs = summary_num_bonds (summary_lines text) \<and>
     (\<forall>b<summary_num_bonds (summary_lines text).
        icohp_record flt (summary_lines text) (summary_num_bonds (summary_lines text))
          (list_is_spin_polarized r) b = Inr (kvs ! b)) \<and>
     icohplist r = fold (\<lambda>kv. AList.update (fst kv) (snd kv)) kvs []"
proof -
  let ?data = "summary_lines text"
  let ?pol = "py_in ''distance'' (?data ! (length ?data div 2))"
  from assms have ne: "?data \<noteq> []"
    by (auto simp: Icohplist_init_def Icohplist_lines_eq split: if_splits)
  with assms obtain kvs where
    c: "collect (icohp_record flt ?data (summary_num_bonds ?data) ?pol)
          [0..<summary_num_bonds ?data] = Inr kvs" and
    r: "r = \<lparr>list_are_coops = coops, list_is_spin_polarized = ?pol,
             icohplist = fold (\<lambda>kv. AList.update (fst kv) (snd kv)) kvs []\<rparr>"
    by (auto simp: Icohplist_init_def Icohplist_lines_eq andthen_eq_Inr)
  have "list_is_spin_polarized r = ?pol" by (simp add: r)
  moreover have "icohplist r = fold (\<lambda>kv. AList.update (fst kv) (snd kv)) kvs []"
    by (simp add: r)
  moreover have "length kvs = summary_num_bonds ?data" using collect_upt(1) [OF c] .
  moreover have "\<forall>b<summary_num_bonds ?data.
        icohp_record flt ?data (summary_num_bonds ?data) (list_is_spin_polarized r) b
          = Inr (kvs ! b)"
    using collect_upt(2) [OF c] by (simp add: r)
  ultimately show ?thesis using ne by blast
qed

lemma summary_polarized_odd:
  assumes "Icohplist_init coops flt text = Inr r" and "list_is_spin_polarized r"
  shows "length (summary_lines text) = 2 * summary_num_bonds (summary_lines text) + 1"
    and "summary_num_bonds (summary_lines text) = length (summary_lines text) div 2"
proof -
  let ?data = "summary_lines text"
  let ?nb = "summary_num_bonds ?data"
  from Icohplist_init_facts [OF assms(1)] obtain kvs where
    ne: "?data \<noteq> []" and
    pol: "list_is_spin_polarized r = py_in ''distance'' (?data ! (length ?data div 2))" and
    b: "\<forall>b<?nb. icohp_record flt ?data ?nb (list_is_spin_polarized r) b = Inr (kvs ! b)"
    by blast
  from pol assms(2) show nb: "?nb = length ?data div 2"
    by (simp add: summary_num_bonds_def)
  show "length ?data = 2 * ?nb + 1"
  proof (cases "?nb = 0")
    case True
    with nb ne have "length ?data = 1"
      by (cases ?data; cases "tl ?data") auto
    with True show ?thesis by simp
  next
    case False
    then have "?nb - 1 < ?nb" by simp
    with b have "icohp_record flt ?data ?nb (list_is_spin_polarized r) (?nb - 1)
        = Inr (kvs ! (?nb - 1))" by blast
    from icohp_record_Inr [OF this] assms(2) have "?nb - 1 + ?nb + 1 < length ?data"
      by auto
    with False nb show ?thesis by linarith
  qed
qed

lemma summary_num_bonds_le: "summary_num_bonds data \<le> length data"
  by (simp add: summary_num_bonds_def)

lemma Icohplist_init_entries:
  assumes "Icohplist_init coops flt text = Inr r"
  shows "\<exists>kvs.
     length kvs = summary_num_bonds (summary_lines text) \<and>
     (\<forall>b<summary_num_bonds (summary_lines text).
        icohp_record flt (summary_lines text) (summary_num_bonds (summary_lines text))
          (list_is_spin_polarized r) b = Inr (kvs ! b)) \<and>
     map fst kvs
       = map summary_label (take (summary_num_bonds (summary_lines text)) (summary_lines text)) \<and>
     icohplist r = fold (\<lambda>kv. AList.update (fst kv) (snd kv)) kvs []"
proof -
  let ?data = "summary_lines text"
  let ?nb = "summary_num_bonds ?data"
  from Icohplist_init_facts [OF assms] obtain kvs where
    len: "length kvs = ?nb" and
    b: "\<forall>b<?nb. icohp_record flt ?data ?nb (list_is_spin_polarized r) b = Inr (kvs ! b)" and
    d: "icohplist r = fold (\<lambda>kv. AList.update (fst kv) (snd kv)) kvs []"
    by blast
  have "map fst kvs = map summary_label (take ?nb ?data)"
  proof (rule nth_equalityI)
    show "length (map fst kvs) = length (map summary_label (take ?nb ?data))"
      using len summary_num_bonds_le [of ?data] by simp
  next
    fix i assume "i < length (map fst kvs)"
    then have i: "i < ?nb" using len by simp
    with b have "icohp_record flt ?data ?nb (list_is_spin_polarized r) i = Inr (kvs ! i)"
      by blast
    from icohp_record_Inr [OF this] have "fst (kvs ! i) = summary_label (?data ! i)"
      by blast
    with i len summary_num_bonds_le [of ?data]
    show "map fst kvs ! i = map summary_label (take ?nb ?data) ! i" by simp
  qed
  with len b d show ?thesis by blast
qed

lemma icohplist_last_wins:
  assumes "length kvs = nb" and "nb \<le> length data"
    and "map fst kvs = map summary_label (take nb data)"
    and "b < nb"
    and "\<forall>b'. b < b' \<and> b' < nb \<longrightarrow> summary_label (data ! b') \<noteq> summary_label (data ! b)"
  shows "map_of (fold (\<lambda>kv. AList.update (fst kv) (snd kv)) kvs d) (summary_label (data ! b))
         = Some (snd (kvs ! b))"
proof -
  have lab: "fst (kvs ! i) = summary_label (data ! i)" if "i < nb" for i
  proof -
    from that assms(1) have "fst (kvs ! i) = map fst kvs ! i" by simp
    also have "\<dots> = summary_label (data ! i)"
      unfolding assms(3) using that assms(2) by simp
    finally show ?thesis .
  qed
  have "map_of (fold (\<lambda>kv. AList.update (fst kv) (snd kv)) kvs d) (fst (kvs ! b))
         = Some (snd (kvs ! b))"
    using assms(1,4,5) lab by (intro map_of_fold_update_last) auto
  then show ?thesis using lab [OF assms(4)] by simp
qed

section \<open>Properties of the reader of ICOHPLIST files\<close>

lemmas icohplist_eval =
  Icohplist_init_def Icohplist_lines_def summary_lines_def icohp_record_def dec_float_def
  py_eval upt_rec

text \<open>
  Claim C4. After a successful construction the list of lines without the first and the
  last is not empty, and the file counts as spin-polarized exactly when \<^verbatim>\<open>distance\<close>
  occurs in the line in the middle (index: half the number of lines, rounded down),
  whatever the parity of the number of lines. When it does, the lines are \<open>num_bonds\<close>
  lines, that line, and \<open>num_bonds\<close> lines again, and for every bond index \<open>b\<close> the entry
  assigned for line \<open>b\<close> has as its value for the second spin channel the fifth column of
  line \<open>b + num_bonds + 1\<close>; it is the entry under its key unless a later line gives the
  same key. When it does not, every line is a bond line and every entry has the first
  spin channel only.
\<close>

theorem C4_spin_polarization_detection:
  assumes "Icohplist_init coops flt text = Inr r"
  shows "summary_lines text \<noteq> [] \<and>
     list_is_spin_polarized r
       = py_in ''distance'' (summary_lines text ! (length (summary_lines text) div 2)) \<and>
     (list_is_spin_polarized r \<longrightarrow>
        summary_num_bonds (summary_lines text) = length (summary_lines text) div 2 \<and>
        length (summary_lines text) = 2 * summary_num_bonds (summary_lines text) + 1 \<and>
        (\<forall>b<summary_num_bonds (summary_lines text). \<exists>kv down.
           icohp_record flt (summary_lines text) (summary_num_bonds (summary_lines text)) True b
             = Inr kv \<and>
           fst kv = summary_label (summary_lines text ! b) \<and>
           4 < length (py_split_ws
                 (summary_lines text ! (b + summary_num_bonds (summary_lines text) + 1))) \<and>
           flt (py_split_ws
                 (summary_lines text ! (b + summary_num_bonds (summary_lines text) + 1)) ! 4)
             = Some down \<and>
           map_of (icohp (snd kv)) Down = Some down \<and>
           ((\<forall>b'. b < b' \<and> b' < summary_num_bonds (summary_lines text) \<longrightarrow>
               summary_label (summary_lines text ! b') \<noteq> summary_label (summary_lines text ! b)) \<longrightarrow>
            map_of (icohplist r) (summary_label (summary_lines text ! b)) = Some (snd kv)))) \<and>
     (\<not> list_is_spin_polarized r \<longrightarrow>
        summary_num_bonds (summary_lines text) = length (summary_lines text) \<and>
        (\<forall>kv\<in>set (icohplist r). map fst (icohp (snd kv)) = [Up]))"
proof -
  let ?data = "summary_lines text"
  let ?nb = "summary_num_bonds ?data"
  let ?pol = "list_is_spin_polarized r"
  from Icohplist_init_facts [OF assms] have
    ne: "?data \<noteq> []" and
    pol: "?pol = py_in ''distance'' (?data ! (length ?data div 2))"
    by blast+
  from Icohplist_init_entries [OF assms] obtain kvs where
    len: "length kvs = ?nb" and
    b: "\<forall>b<?nb. icohp_record flt ?data ?nb ?pol b = Inr (kvs ! b)" and
    lab: "map fst kvs = map summary_label (take ?nb ?data)" and
    d: "icohplist r = fold (\<lambda>kv. AList.update (fst kv) (snd kv)) kvs []"
    by blast
  have polarized: "\<exists>kv down.
           icohp_record flt ?data ?nb True b = Inr kv \<and>
           fst kv = summary_label (?data ! b) \<and>
           4 < length (py_split_ws (?data ! (b + ?nb + 1))) \<and>
           flt (py_split_ws (?data ! (b + ?nb + 1)) ! 4) = Some down \<and>
           map_of (icohp (snd kv)) Down = Some down \<and>
           ((\<forall>b'. b < b' \<and> b' < ?nb \<longrightarrow>
               summary_label (?data ! b') \<noteq> summary_label (?data ! b)) \<longrightarrow>
            map_of (icohplist r) (summary_label (?data ! b)) = Some (snd kv))"
    if p: "?pol" and "b < ?nb" for b
  proof -
    from b that have rec: "icohp_record flt ?data ?nb True b = Inr (kvs ! b)" by auto
    from icohp_record_Inr [OF rec] obtain down where
      "fst (kvs ! b) = summary_label (?data ! b)"
      "4 < length (py_split_ws (?data ! (b + ?nb + 1)))"
      "flt (py_split_ws (?data ! (b + ?nb + 1)) ! 4) = Some down"
      "map_of (icohp (snd (kvs ! b))) Down = Some down"
      by auto
    moreover have "map_of (icohplist r) (summary_label (?data ! b)) = Some (snd (kvs ! b))"
      if "\<forall>b'. b < b' \<and> b' < ?nb \<longrightarrow> summary_label (?data ! b') \<noteq> summary_label (?data ! b)"
      unfolding d using len summary_num_bonds_le lab \<open>b < ?nb\<close> that
      by (rule icohplist_last_wins)
    ultimately show ?thesis using rec by blast
  qed
  have unpolarized: "map fst (icohp (snd kv)) = [Up]"
    if np: "\<not> ?pol" and "kv \<in> set (icohplist r)" for kv
  proof -
    from that(2) have "kv \<in> set kvs"
      unfolding d using set_fold_update_subset [of kvs "[]"] by auto
    then obtain i where "i < ?nb" "kv = kvs ! i"
      using len by (auto simp: in_set_conv_nth)
    with b np have "icohp_record flt ?data ?nb False i = Inr kv" by auto
    from icohp_record_Inr [OF this] show ?thesis by auto
  qed
  have nb: "?nb = length ?data" if "\<not> ?pol"
    using that pol by (simp add: summary_num_bonds_def)
  show ?thesis
  proof (intro conjI impI allI ballI)
    show "?data \<noteq> []" by (rule ne)
    show "?pol = py_in ''distance'' (?data ! (length ?data div 2))" by (rule pol)
    show "?nb = length ?data div 2" if "?pol"
      using summary_polarized_odd(2) [OF assms that] .
    show "length ?data = 2 * ?nb + 1" if "?pol"
      using summary_polarized_odd(1) [OF assms that] .
    show "\<exists>kv down.
           icohp_record flt ?data ?nb True b = Inr kv \<and>
           fst kv = summary_label (?data ! b) \<and>
           4 < length (py_split_ws (?data ! (b + ?nb + 1))) \<and>
           flt (py_split_ws (?data ! (b + ?nb + 1)) ! 4) = Some down \<and>
           map_of (icohp (snd kv)) Down = Some down \<and>
           ((\<forall>b'. b < b' \<and> b' < ?nb \<longrightarrow>
               summary_label (?data ! b') \<noteq> summary_label (?data ! b)) \<longrightarrow>
            map_of (icohplist r) (summary_label (?data ! b)) = Some (snd kv))"
      if "?pol" "b < ?nb" for b
      using that by (rule polarized)
    show "?nb = length ?data" if "\<not> ?pol" using that by (rule nb)
    show "map fst (icohp (snd kv)) = [Up]" if "\<not> ?pol" "kv \<in> set (icohplist r)" for kv
      using that by (rule unpolarized)
  qed
qed

lemma polarized_list_file_decoded:
  "Icohplist_init False dec_float polarized_list_file =
     Inr \<lparr>list_are_coops = False, list_is_spin_polarized = True,
          icohplist =
            [(''Fe1-Fe2'', \<lparr>entry_length = 5 / 2, number_of_bonds = 3,
                            icohp = [(Up, - 1), (Down, - 3 / 4)]\<rparr>),
             (''Fe1-Fe3'', \<lparr>entry_length = 7 / 2, number_of_bonds = 6,
                            icohp = [(Up, - 1 / 2), (Down, - 1 / 4)]\<rparr>)]\<rparr>"
  by (simp add: polarized_list_file_def icohplist_eval)

theorem C4_spin_polarization_detection_witness:
  "length (summary_lines polarized_list_file) = 5 \<and>
   py_in ''distance'' (summary_lines polarized_list_file ! 2) \<and>
   py_split_ws (summary_lines polarized_list_file ! 4) ! 4 = ''-0.25'' \<and>
   dec_float ''-0.25'' = Some (- 1 / 4) \<and>
   (case Icohplist_init False dec_float polarized_list_file of
      Inl e \<Rightarrow> False
    | Inr r \<Rightarrow>
        list_is_spin_polarized r \<and>
        (case map_of (icohplist r) ''Fe1-Fe3'' of
           None \<Rightarrow> False
         | Some e \<Rightarrow> map_of (icohp e) Down = Some (- 1 / 4)))"
proof -
  have "length (summary_lines polarized_list_file) = 5"
    "py_in ''distance'' (summary_lines polarized_list_file ! 2)"
    "py_split_ws (summary_lines polarized_list_file ! 4) ! 4 = ''-0.25''"
    "dec_float ''-0.25'' = Some (- 1 / 4)"
    by (simp_all add: polarized_list_file_def summary_lines_def dec_float_def py_eval)
  moreover have "summary_lines polarized_list_file \<noteq> []"
    using C4_spin_polarization_detection [OF polarized_list_file_decoded] by (rule conjunct1)
  ultimately show ?thesis
    by (simp add: polarized_list_file_decoded)
qed

lemma raises_Icohplist_init:
  "raises (Icohplist_init coops flt text) \<longleftrightarrow>
     summary_lines text = [] \<or>
     list_ex (\<lambda>b. raises (icohp_record flt (summary_lines text)
                  (summary_num_bonds (summary_lines text))
                  (py_in ''distance'' (summary_lines text ! (length (summary_lines text) div 2))) b))
       [0..<summary_num_bonds (summary_lines text)]"
  by (simp add: Icohplist_init_def Icohplist_lines_eq raises_andthen flip: raises_collect)

lemma py_slice_inner: "py_slice xs 1 (- 1) = butlast (tl xs)"
  by (cases xs) (auto simp: py_slice_def slice_bound_def Let_def butlast_conv_take max_def)

lemma summary_lines_short: "length (file_lines text) \<le> 2 \<Longrightarrow> summary_lines text = []"
  by (cases "file_lines text"; cases "tl (file_lines text)")
    (auto simp: summary_lines_def py_slice_inner)

text \<open>
  Claim C8, amended. The construction raises when the text splits into at most two lines;
  when one of the first \<open>num_bonds\<close> lines has fewer than six columns; and, in a
  spin-polarized file, when the line \<open>b + num_bonds + 1\<close> of a bond \<open>b\<close> has fewer than
  five columns. It raises exactly when it returns no object.
\<close>

theorem C8_summary_failures:
  "(length (file_lines text) \<le> 2 \<longrightarrow> raises (Icohplist_init coops flt text)) \<and>
   (\<forall>b<summary_num_bonds (summary_lines text).
      length (py_split_ws (summary_lines text ! b)) < 6 \<longrightarrow>
      raises (Icohplist_init coops flt text)) \<and>
   (py_in ''distance'' (summary_lines text ! (length (summary_lines text) div 2)) \<longrightarrow>
      (\<forall>b<summary_num_bonds (summary_lines text).
         length (py_split_ws
            (summary_lines text ! (b + summary_num_bonds (summary_lines text) + 1))) < 5 \<longrightarrow>
         raises (Icohplist_init coops flt text))) \<and>
   (raises (Icohplist_init coops flt text) \<longleftrightarrow> (\<forall>r. Icohplist_init coops flt text \<noteq> Inr r))"
proof -
  let ?data = "summary_lines text"
  let ?nb = "summary_num_bonds ?data"
  let ?pol = "py_in ''distance'' (?data ! (length ?data div 2))"
  let ?X = "Icohplist_init coops flt text"
  have step: "raises ?X" if "b < ?nb" "raises (icohp_record flt ?data ?nb ?pol b)" for b
    unfolding raises_Icohplist_init list_ex_iff using that by auto
  have a: "raises ?X" if "length (file_lines text) \<le> 2"
    using summary_lines_short [OF that] by (simp add: raises_Icohplist_init)
  have b: "raises ?X" if "b < ?nb" "length (py_split_ws (?data ! b)) < 6" for b
  proof (rule step [OF that(1)], rule ccontr)
    assume "\<not> raises (icohp_record flt ?data ?nb ?pol b)"
    then obtain kv where "icohp_record flt ?data ?nb ?pol b = Inr kv"
      by (auto simp: not_raises_iff)
    from icohp_record_Inr [OF this] that(2) show False by simp
  qed
  have c: "raises ?X"
    if "?pol" "b < ?nb" "length (py_split_ws (?data ! (b + ?nb + 1))) < 5" for b
  proof (rule step [OF that(2)], rule ccontr)
    assume "\<not> raises (icohp_record flt ?data ?nb ?pol b)"
    then obtain kv where "icohp_record flt ?data ?nb ?pol b = Inr kv"
      by (auto simp: not_raises_iff)
    from icohp_record_Inr [OF this] that(1,3) show False by auto
  qed
  have d: "raises ?X \<longleftrightarrow> (\<forall>r. ?X \<noteq> Inr r)"
    by (cases ?X) simp_all
  from a b c d show ?thesis by (intro conjI impI allI) blast+
qed

text \<open>
  Claim C8, as stated, fails: of a line of the second half only the fifth column is read,
  so a spin-polarized file whose line of the second half has five columns is accepted.
\<close>

theorem C8_five_column_minority_line_accepted:
  "py_split_ws (summary_lines short_minority_file ! 2) = [''1'', ''Fe1'', ''Fe2'', ''2.5'', ''-0.9''] \<and>
   Icohplist_init False dec_float short_minority_file =
     Inr \<lparr>list_are_coops = False, list_is_spin_polarized = True,
          icohplist = [(''Fe1-Fe2'', \<lparr>entry_length = 5 / 2, number_of_bonds = 3,
                                       icohp = [(Up, - 1), (Down, - 9 / 10)]\<rparr>)]\<rparr>"
  by (simp add: short_minority_file_def icohplist_eval)

theorem C8_summary_failures_witness:
  "summary_num_bonds (summary_lines short_majority_file) = 1 \<and>
   length (py_split_ws (summary_lines short_majority_file ! 0)) = 5 \<and>
   raises (Icohplist_init False dec_float short_majority_file)"
proof -
  have a: "summary_num_bonds (summary_lines short_majority_file) = 1"
    and b: "length (py_split_ws (summary_lines short_majority_file ! 0)) = 5"
    by (simp_all add: short_majority_file_def summary_num_bonds_def summary_lines_def py_eval)
  from C8_summary_failures [of short_majority_file False dec_float]
  have "\<forall>b<summary_num_bonds (summary_lines short_majority_file).
      length (py_split_ws (summary_lines short_majority_file ! b)) < 6 \<longrightarrow>
      raises (Icohplist_init False dec_float short_majority_file)"
    by blast
  with a b show ?thesis by simp
qed

text \<open>
  Claim C9. After a successful construction the keys of \<^verbatim>\<open>icohplist\<close> are distinct and
  are the keys that the first \<open>num_bonds\<close> lines give. For a line that no later one of
  them repeats the key of, the entry under that key has the length, the number of bonds
  and the values of that line (and, in a spin-polarized file, of its line in the second
  half). So the number of entries is at most \<open>num_bonds\<close>, with equality exactly when the
  keys of these lines are pairwise different.
\<close>

theorem C9_repeated_label_last_wins:
  assumes "Icohplist_init coops flt text = Inr r"
  shows "distinct (map fst (icohplist r)) \<and>
     fst ` set (icohplist r)
       = summary_label ` set (take (summary_num_bonds (summary_lines text)) (summary_lines text)) \<and>
     (\<forall>b<summary_num_bonds (summary_lines text).
        (\<forall>b'. b < b' \<and> b' < summary_num_bonds (summary_lines text) \<longrightarrow>
           summary_label (summary_lines text ! b') \<noteq> summary_label (summary_lines text ! b)) \<longrightarrow>
        (\<exists>e up.
           map_of (icohplist r) (summary_label (summary_lines text ! b)) = Some e \<and>
           flt (py_split_ws (summary_lines text ! b) ! 3) = Some (entry_length e) \<and>
           py_int (py_split_ws (summary_lines text ! b) ! 5) = Some (number_of_bonds e) \<and>
           flt (py_split_ws (summary_lines text ! b) ! 4) = Some up \<and>
           (if list_is_spin_polarized r then
              \<exists>down.
                flt (py_split_ws
                      (summary_lines text ! (b + summary_num_bonds (summary_lines text) + 1)) ! 4)
                  = Some down \<and>
                icohp e = [(Up, up), (Down, down)]
            else icohp e = [(Up, up)]))) \<and>
     length (icohplist r) \<le> summary_num_bonds (summary_lines text) \<and>
     (length (icohplist r) = summary_num_bonds (summary_lines text) \<longleftrightarrow>
        distinct (map summary_label
          (take (summary_num_bonds (summary_lines text)) (summary_lines text))))"
proof -
  let ?data = "summary_lines text"
  let ?nb = "summary_num_bonds ?data"
  from Icohplist_init_entries [OF assms] obtain kvs where
    len: "length kvs = ?nb" and
    b: "\<forall>b<?nb. icohp_record flt ?data ?nb (list_is_spin_polarized r) b = Inr (kvs ! b)" and
    lab: "map fst kvs = map summary_label (take ?nb ?data)" and
    d: "icohplist r = fold (\<lambda>kv. AList.update (fst kv) (snd kv)) kvs []"
    by blast
  have keys: "fst ` set kvs = summary_label ` set (take ?nb ?data)"
    using arg_cong [OF lab, of set] by simp
  have c1: "distinct (map fst (icohplist r))"
    unfolding d by (rule distinct_fold_update) simp
  have c2: "fst ` set (icohplist r) = summary_label ` set (take ?nb ?data)"
    unfolding d keys_fold_update keys by simp
  have c3: "\<exists>e up.
           map_of (icohplist r) (summary_label (?data ! b)) = Some e \<and>
           flt (py_split_ws (?data ! b) ! 3) = Some (entry_length e) \<and>
           py_int (py_split_ws (?data ! b) ! 5) = Some (number_of_bonds e) \<and>
           flt (py_split_ws (?data ! b) ! 4) = Some up \<and>
           (if list_is_spin_polarized r then
              \<exists>down. flt (py_split_ws (?data ! (b + ?nb + 1)) ! 4) = Some down \<and>
                icohp e = [(Up, up), (Down, down)]
            else icohp e = [(Up, up)])"
    if "b < ?nb"
      "\<forall>b'. b < b' \<and> b' < ?nb \<longrightarrow> summary_label (?data ! b') \<noteq> summary_label (?data ! b)"
    for b
  proof -
    have "map_of (icohplist r) (summary_label (?data ! b)) = Some (snd (kvs ! b))"
      unfolding d using len summary_num_bonds_le lab that by (rule icohplist_last_wins)
    moreover from b that(1)
    have "icohp_record flt ?data ?nb (list_is_spin_polarized r) b = Inr (kvs ! b)" by blast
    note icohp_record_Inr [OF this]
    ultimately show ?thesis by (cases "list_is_spin_polarized r") auto
  qed
  have c4: "length (icohplist r) = card (set (map summary_label (take ?nb ?data)))"
    unfolding d length_fold_update_empty keys by simp
  have l: "length (map summary_label (take ?nb ?data)) = ?nb"
    using summary_num_bonds_le [of ?data] by simp
  have c5: "length (icohplist r) \<le> ?nb"
    unfolding c4 using card_length [of "map summary_label (take ?nb ?data)"] l by simp
  have c6: "length (icohplist r) = ?nb \<longleftrightarrow> distinct (map summary_label (take ?nb ?data))"
    unfolding c4 using card_distinct [of "map summary_label (take ?nb ?data)"]
      distinct_card [of "map summary_label (take ?nb ?data)"] l by auto
  from c1 c2 c3 c5 c6 show ?thesis by blast
qed

lemma repeated_pair_file_decoded:
  "Icohplist_init False dec_float repeated_pair_file =
     Inr \<lparr>list_are_coops = False, list_is_spin_polarized = False,
          icohplist =
            [(''Fe1-Fe2'', \<lparr>entry_length = 7 / 2, number_of_bonds = 6, icohp = [(Up, - 1 / 2)]\<rparr>),
             (''Fe1-Fe3'', \<lparr>entry_length = 4, number_of_bonds = 1, icohp = [(Up, - 1 / 4)]\<rparr>)]\<rparr>"
  by (simp add: repeated_pair_file_def icohplist_eval)

theorem C9_repeated_label_last_wins_witness:
  "summary_num_bonds (summary_lines repeated_pair_file) = 3 \<and>
   map summary_label (take 3 (summary_lines repeated_pair_file))
     = [''Fe1-Fe2'', ''Fe1-Fe2'', ''Fe1-Fe3''] \<and>
   (case Icohplist_init False dec_float repeated_pair_file of
      Inl e \<Rightarrow> False
    | Inr r \<Rightarrow>
        length (icohplist r) = 2 \<and>
        map_of (icohplist r) ''Fe1-Fe2''
          = Some \<lparr>entry_length = 7 / 2, number_of_bonds = 6, icohp = [(Up, - 1 / 2)]\<rparr>)"
proof -
  have "summary_num_bonds (summary_lines repeated_pair_file) = 3"
    "map summary_label (take 3 (summary_lines repeated_pair_file))
       = [''Fe1-Fe2'', ''Fe1-Fe2'', ''Fe1-Fe3'']"
    by (simp_all add: repeated_pair_file_def summary_num_bonds_def summary_label_def
        summary_lines_def py_eval)
  then show ?thesis
    using C9_repeated_label_last_wins [OF repeated_pair_file_decoded]
    by (simp add: repeated_pair_file_decoded)
qed

end
